theory Spec2Isabelle
  imports Main "HOL-Library.AList"
begin

section \<open>Python values handled by the serializer\<close>

text \<open>
  The serializer of \<^verbatim>\<open>wadofstuff/django/serializers\<close> turns Django model instances into
  Python dictionaries. \<open>val\<close> is a value the serializer reads from an instance: \<^verbatim>\<open>None\<close>,
  a boolean, an integer, a float, a decimal or a temporal value (the last three carried
  as their printed text), a string, a bytes object (carried as its UTF-8 decoding, \<open>None\<close>
  when it has none), or any other object (a list, a tuple, a UUID, a duration, ...),
  carried as the text \<^verbatim>\<open>str\<close> gives for it. \<open>out\<close> is what the serializer builds: such a
  value passed on, a list, or a dictionary. A dictionary is an association list in
  insertion order with distinct keys: \<open>map_of\<close> reads it and \<open>AList.update\<close> is item
  assignment (an existing key keeps its place and gets the new value, a new key is
  appended).
\<close>

datatype val =
    VNone
  | VBool bool
  | VInt int
  | VFloat string
  | VDecimal string
  | VTemporal string
  | VStr string
  | VBytes "string option"
  | VOther string

datatype out =
    OVal val
  | OList "out list"
  | ODict "(string \<times> out) list"

type_synonym dict = "(string \<times> out) list"

datatype error =
    AttributeError string
  | TypeError string
  | KeyError string
  | IndexError
  | UnicodeDecodeError
  | Unmodelled string

text \<open>
  \<^verbatim>\<open>django.utils.encoding.is_protected_type\<close>: \<^verbatim>\<open>None\<close>, integers (booleans are
  integers in Python), floats, decimals, dates and times.
\<close>

fun is_protected_type :: "val \<Rightarrow> bool" where
  "is_protected_type VNone = True"
| "is_protected_type (VBool b) = True"
| "is_protected_type (VInt i) = True"
| "is_protected_type (VFloat t) = True"
| "is_protected_type (VDecimal t) = True"
| "is_protected_type (VTemporal t) = True"
| "is_protected_type (VStr t) = False"
| "is_protected_type (VBytes t) = False"
| "is_protected_type (VOther t) = False"

text \<open>Python's \<^verbatim>\<open>str\<close> on integers: decimal digits, with a minus sign.\<close>

fun str_nat :: "nat \<Rightarrow> string" where
  "str_nat n = (if n < 10 then [''0123456789'' ! n]
                else str_nat (n div 10) @ [''0123456789'' ! (n mod 10)])"

declare str_nat.simps [simp del]

definition str_int :: "int \<Rightarrow> string" where
  "str_int i = (if i < 0 then CHR ''-'' # str_nat (nat (- i)) else str_nat (nat i))"

text \<open>
  Django's conversion to text (\<^verbatim>\<open>force_text\<close>, to which \<^verbatim>\<open>smart_text\<close> and \<^verbatim>\<open>smart_str\<close>
  come down): a string is returned as it is, a bytes object is decoded (which raises when
  it is not valid UTF-8), and every other value is converted with \<^verbatim>\<open>str\<close>.
\<close>

fun force_text :: "val \<Rightarrow> error + string" where
  "force_text VNone = Inr ''None''"
| "force_text (VBool b) = Inr (if b then ''True'' else ''False'')"
| "force_text (VInt i) = Inr (str_int i)"
| "force_text (VFloat t) = Inr t"
| "force_text (VDecimal t) = Inr t"
| "force_text (VTemporal t) = Inr t"
| "force_text (VStr t) = Inr t"
| "force_text (VBytes None) = Inl UnicodeDecodeError"
| "force_text (VBytes (Some t)) = Inr t"
| "force_text (VOther t) = Inr t"

text \<open>
  \<^verbatim>\<open>smart_str(v, strings_only=True)\<close>, the only form in which the serializer calls
  \<^verbatim>\<open>smart_str\<close> on a value: with \<^verbatim>\<open>strings_only\<close> set, Django returns a value of a
  protected type as it is, and converts every other value to text.
\<close>

definition smart_str_strings_only :: "val \<Rightarrow> error + val" where
  "smart_str_strings_only v =
     (if is_protected_type v then Inr v
      else (case force_text v of Inl e \<Rightarrow> Inl e | Inr t \<Rightarrow> Inr (VStr t)))"

section \<open>Model metadata and instances\<close>

text \<open>
  What the serializer reads from a field descriptor: \<^verbatim>\<open>field.name\<close>,
  \<^verbatim>\<open>field.attname\<close>, \<^verbatim>\<open>field.serialize\<close> and \<^verbatim>\<open>field.rel\<close> (\<open>None\<close> for a
  non-relational field). Of \<^verbatim>\<open>field.rel\<close> it reads \<^verbatim>\<open>field_name\<close>,
  \<^verbatim>\<open>through._meta.auto_created\<close> and whether \<^verbatim>\<open>to\<close> has a \<^verbatim>\<open>natural_key\<close>.
  \<open>to_string\<close> is the conversion that \<^verbatim>\<open>field.value_to_string\<close> applies to the value of
  the field: \<open>force_text\<close> for a plain \<^verbatim>\<open>Field\<close>, and whatever the class of the field
  defines otherwise (a duration field prints durations in a format of its own).
\<close>

record rel_info =
  field_name :: string
  through_auto_created :: bool
  to_has_natural_key :: bool

record field =
  name :: string
  attname :: string
  field_serialize :: bool
  rel :: "rel_info option"
  to_string :: "val \<Rightarrow> error + string"

text \<open>
  An entry of \<^verbatim>\<open>_meta.get_fields()\<close> as the reverse-relation filters of
  \<^verbatim>\<open>serialize\<close> read it, with the result of \<^verbatim>\<open>get_accessor_name()\<close>.
\<close>

record related_object =
  accessor_name :: string
  one_to_many :: bool
  one_to_one :: bool
  ro_many_to_many :: bool
  auto_created :: bool
  concrete :: bool
  hidden :: bool

text \<open>
  \<^verbatim>\<open>obj._meta\<close>. \<open>label\<close> is \<^verbatim>\<open>smart_str(obj._meta)\<close> and \<open>pk_name\<close> is
  \<^verbatim>\<open>_meta.pk.name\<close>. The two legacy methods are \<open>None\<close> when \<^verbatim>\<open>_meta\<close> does not
  have them (\<^verbatim>\<open>hasattr\<close> is false). \<open>get_fields_hidden\<close> is
  \<^verbatim>\<open>get_fields(include_hidden=True)\<close>; \<^verbatim>\<open>get_fields()\<close> leaves the hidden entries out.
\<close>

record meta =
  label :: string
  pk_name :: string
  local_fields :: "field list"
  many_to_many :: "field list"
  get_all_related_objects :: "related_object list option"
  get_all_related_many_to_many_objects :: "related_object list option"
  get_fields_hidden :: "related_object list"

definition get_fields :: "meta \<Rightarrow> related_object list" where
  "get_fields m = filter (\<lambda>f. \<not> hidden f) (get_fields_hidden m)"

text \<open>
  A model instance: its \<^verbatim>\<open>_meta\<close>, the result of \<^verbatim>\<open>_get_pk_val()\<close>, the text of
  \<^verbatim>\<open>str(obj)\<close>, and its attributes by name. An attribute is a plain value, a method
  without arguments (with the value it returns), a single related instance, or a related
  manager (with the instances \<^verbatim>\<open>all()\<close> and \<^verbatim>\<open>iterator()\<close> yield, in order). Reading a
  name that is not among the attributes raises \<^verbatim>\<open>AttributeError\<close>; this is also how the
  accessor of a reverse one-to-one relation without a related object behaves (Django's
  \<^verbatim>\<open>RelatedObjectDoesNotExist\<close> is an \<^verbatim>\<open>AttributeError\<close>).
\<close>

datatype obj = Obj (obj_meta: meta) (get_pk_val: val) (obj_str: string)
                   (attrs: "(string \<times> attr) list")
and attr = AValue val | AMethod val | ARelated obj | AManager "obj list"

definition getattr :: "obj \<Rightarrow> string \<Rightarrow> error + attr" where
  "getattr ob n = (case map_of (attrs ob) n of
                     None \<Rightarrow> Inl (AttributeError n)
                   | Some a \<Rightarrow> Inr a)"

definition hasattr :: "obj \<Rightarrow> string \<Rightarrow> bool" where
  "hasattr ob n = (map_of (attrs ob) n \<noteq> None)"

text \<open>\<^verbatim>\<open>x is None\<close>.\<close>

fun is_none :: "attr \<Rightarrow> bool" where
  "is_none (AValue VNone) = True"
| "is_none a = False"

section \<open>Serializer state and options\<close>

text \<open>
  The mutable attributes of the Python serializer: \<^verbatim>\<open>_fields\<close> and \<^verbatim>\<open>_extras\<close>
  (\<open>None\<close> between objects) and \<^verbatim>\<open>objects\<close>.
\<close>

record serializer =
  s_fields :: "dict option"
  s_extras :: "dict option"
  objects :: "out list"

text \<open>
  The keyword options of \<^verbatim>\<open>serialize\<close> after its defaults are applied.
  \<^verbatim>\<open>relations\<close> is a list of names, or a dictionary from names to nested options;
  a dictionary value that is not itself a dictionary is \<open>None\<close> here.
\<close>

datatype 'o rels = RelList "string list" | RelDict "(string \<times> 'o option) list"

datatype options = Options (fields: "string list") (excludes: "string list")
                           (relations: "options rels") (extras: "string list")
                           (use_natural_keys: bool)

definition empty_options :: options where
  "empty_options = Options [] [] (RelList []) [] False"

text \<open>\<^verbatim>\<open>fname in self.relations\<close>: membership in the list, or among the keys.\<close>

fun in_relations :: "string \<Rightarrow> 'o rels \<Rightarrow> bool" where
  "in_relations n (RelList ns) = (n \<in> set ns)"
| "in_relations n (RelDict kvs) = (n \<in> set (map fst kvs))"

text \<open>
  The options of a nested call:
  \<^verbatim>\<open>options = {}
  if isinstance(self.relations, dict):
      if isinstance(self.relations[fname], dict):
          options = self.relations[fname]\<close>
  It is only evaluated under \<^verbatim>\<open>fname in self.relations\<close>, so the subscript finds its key.
\<close>

fun nested_options :: "options rels \<Rightarrow> string \<Rightarrow> options" where
  "nested_options (RelList ns) n = empty_options"
| "nested_options (RelDict kvs) n =
     (case map_of kvs n of Some (Some opts) \<Rightarrow> opts | _ \<Rightarrow> empty_options)"

text \<open>\<^verbatim>\<open>self._fields[k] = v\<close> and \<^verbatim>\<open>self._extras[k] = v\<close>.\<close>

definition set_field :: "string \<Rightarrow> out \<Rightarrow> serializer \<Rightarrow> error + serializer" where
  "set_field k v s = (case s_fields s of
       None \<Rightarrow> Inl (TypeError ''item assignment'')
     | Some d \<Rightarrow> Inr (s\<lparr>s_fields := Some (AList.update k v d)\<rparr>))"

definition set_extra :: "string \<Rightarrow> out \<Rightarrow> serializer \<Rightarrow> error + serializer" where
  "set_extra k v s = (case s_extras s of
       None \<Rightarrow> Inl (TypeError ''item assignment'')
     | Some d \<Rightarrow> Inr (s\<lparr>s_extras := Some (AList.update k v d)\<rparr>))"

text \<open>A loop whose body may raise, over the state and as a list comprehension.\<close>

primrec for_each :: "('a \<Rightarrow> 's \<Rightarrow> error + 's) \<Rightarrow> 'a list \<Rightarrow> 's \<Rightarrow> error + 's" where
  "for_each f [] s = Inr s"
| "for_each f (x # xs) s = (case f x s of Inl e \<Rightarrow> Inl e | Inr s' \<Rightarrow> for_each f xs s')"

primrec comprehension :: "('a \<Rightarrow> error + 'b) \<Rightarrow> 'a list \<Rightarrow> error + 'b list" where
  "comprehension f [] = Inr []"
| "comprehension f (x # xs) =
     (case f x of Inl e \<Rightarrow> Inl e
      | Inr y \<Rightarrow> (case comprehension f xs of Inl e \<Rightarrow> Inl e | Inr ys \<Rightarrow> Inr (y # ys)))"

text \<open>Sequencing of two steps of which the first may raise.\<close>

definition and_then :: "error + 'a \<Rightarrow> ('a \<Rightarrow> error + 'b) \<Rightarrow> error + 'b" where
  "and_then m f = (case m of Inl e \<Rightarrow> Inl e | Inr x \<Rightarrow> f x)"

text \<open>\<^verbatim>\<open>xs[0]\<close>.\<close>

fun item0 :: "'a list \<Rightarrow> error + 'a" where
  "item0 [] = Inl IndexError"
| "item0 (x # xs) = Inr x"

text \<open>\<^verbatim>\<open>attname[:-3]\<close>.\<close>

definition slice_to_minus3 :: "string \<Rightarrow> string" where
  "slice_to_minus3 a = take (length a - 3) a"

text \<open>
  What the code does with an attribute value. \<open>as_model\<close>: use as a model instance
  (anything else has no \<^verbatim>\<open>_meta\<close>). \<open>iterator\<close>: \<^verbatim>\<open>.iterator()\<close> and \<^verbatim>\<open>.all()\<close> of a
  manager. \<open>callable\<close> and \<open>call_method\<close>: a method is called without arguments; a related
  manager is callable too, and called without its keyword \<^verbatim>\<open>manager\<close> it raises
  \<^verbatim>\<open>KeyError\<close>. \<open>column_value\<close>: the attribute of a column holds a plain value.
  \<open>attr_smart_str\<close>: \<^verbatim>\<open>smart_str(x, strings_only=True)\<close> on a plain value or on a model
  instance, whose text is \<^verbatim>\<open>str(obj)\<close>; the serializer applies it to nothing else.
\<close>

fun as_model :: "attr \<Rightarrow> error + obj" where
  "as_model (ARelated r) = Inr r"
| "as_model a = Inl (AttributeError ''_meta'')"

fun iterator :: "attr \<Rightarrow> error + obj list" where
  "iterator (AManager rs) = Inr rs"
| "iterator a = Inl (AttributeError ''iterator'')"

fun is_manager :: "attr \<Rightarrow> bool" where
  "is_manager (AManager rs) = True"
| "is_manager a = False"

fun callable :: "attr \<Rightarrow> bool" where
  "callable (AMethod v) = True"
| "callable (AManager rs) = True"
| "callable a = False"

fun call_method :: "attr \<Rightarrow> error + val" where
  "call_method (AMethod v) = Inr v"
| "call_method (AManager rs) = Inl (KeyError ''manager'')"
| "call_method a = Inl (TypeError ''not callable'')"

fun column_value :: "attr \<Rightarrow> error + val" where
  "column_value (AValue v) = Inr v"
| "column_value a = Inl (Unmodelled ''column'')"

fun attr_smart_str :: "attr \<Rightarrow> error + val" where
  "attr_smart_str (AValue v) = smart_str_strings_only v"
| "attr_smart_str (ARelated r) = Inr (VStr (obj_str r))"
| "attr_smart_str a = Inl (Unmodelled ''callable'')"

text \<open>\<^verbatim>\<open>related.natural_key()\<close>.\<close>

definition natural_key :: "obj \<Rightarrow> error + val" where
  "natural_key r = and_then (getattr r ''natural_key'') call_method"

text \<open>\<^verbatim>\<open>field.rel\<close> where the code reads an attribute of it.\<close>

definition rel_of :: "field \<Rightarrow> error + rel_info" where
  "rel_of f = (case rel f of None \<Rightarrow> Inl (AttributeError ''rel'') | Some ri \<Rightarrow> Inr ri)"

section \<open>The Python serializer (python.py)\<close>

definition start_serialization :: serializer where
  "start_serialization = \<lparr>s_fields = None, s_extras = None, objects = []\<rparr>"

definition start_object :: "obj \<Rightarrow> serializer \<Rightarrow> serializer" where
  "start_object ob s = s\<lparr>s_fields := Some [], s_extras := Some []\<rparr>"

text \<open>
  \<^verbatim>\<open>end_object\<close> appends the record of the object; the key \<^verbatim>\<open>extras\<close> is added only
  when \<^verbatim>\<open>_extras\<close> is a non-empty dictionary.
\<close>

definition record_of :: "string \<Rightarrow> val \<Rightarrow> dict option \<Rightarrow> dict option \<Rightarrow> out" where
  "record_of m p fs es =
     ODict ([(''model'', OVal (VStr m)), (''pk'', OVal p),
             (''fields'', (case fs of None \<Rightarrow> OVal VNone | Some d \<Rightarrow> ODict d))]
            @ (case es of Some (e # es') \<Rightarrow> [(''extras'', ODict (e # es'))] | _ \<Rightarrow> []))"

definition end_object :: "obj \<Rightarrow> serializer \<Rightarrow> error + serializer" where
  "end_object ob s =
     and_then (smart_str_strings_only (get_pk_val ob)) (\<lambda>p.
       Inr (s\<lparr>objects := objects s @ [record_of (label (obj_meta ob)) p (s_fields s) (s_extras s)],
              s_fields := None, s_extras := None\<rparr>))"

text \<open>
  \<^verbatim>\<open>field._get_val_from_obj(obj)\<close> reads the attribute \<^verbatim>\<open>field.attname\<close>, and
  \<^verbatim>\<open>field.value_to_string(obj)\<close> is the conversion of the field applied to that value.
\<close>

definition get_val_from_obj :: "field \<Rightarrow> obj \<Rightarrow> error + val" where
  "get_val_from_obj f ob = and_then (getattr ob (attname f)) column_value"

definition value_to_string :: "field \<Rightarrow> obj \<Rightarrow> error + string" where
  "value_to_string f ob = and_then (get_val_from_obj f ob) (to_string f)"

definition handle_field :: "obj \<Rightarrow> field \<Rightarrow> serializer \<Rightarrow> error + serializer" where
  "handle_field ob f s =
     and_then (get_val_from_obj f ob) (\<lambda>value.
       if is_protected_type value then set_field (name f) (OVal value) s
       else and_then (value_to_string f ob) (\<lambda>t. set_field (name f) (OVal (VStr t)) s))"

text \<open>
  The handlers that expand relations create a new \<^verbatim>\<open>Serializer()\<close> and call its
  \<^verbatim>\<open>serialize\<close>; \<open>ser\<close> stands for that call, given the nested options and the objects.
\<close>

definition handle_fk_field ::
  "(options \<Rightarrow> obj list \<Rightarrow> error + out list) \<Rightarrow> options \<Rightarrow> obj \<Rightarrow> field \<Rightarrow> serializer
     \<Rightarrow> error + serializer" where
  "handle_fk_field ser opts ob f s =
     and_then (getattr ob (name f)) (\<lambda>related.
       if \<not> is_none related then
         if in_relations (name f) (relations opts) then
           and_then (as_model related) (\<lambda>r.
           and_then (ser (nested_options (relations opts) (name f)) [r]) (\<lambda>recs.
           and_then (item0 recs) (\<lambda>v. set_field (name f) v s)))
         else
           and_then (as_model related) (\<lambda>r.
           and_then
             (if use_natural_keys opts \<and> hasattr r ''natural_key'' then natural_key r
              else and_then (rel_of f) (\<lambda>ri.
                if field_name ri = pk_name (obj_meta r) then Inr (get_pk_val r)
                else and_then (getattr r (field_name ri)) attr_smart_str))
             (\<lambda>v. set_field (name f) (OVal v) s))
       else and_then (attr_smart_str related) (\<lambda>v. set_field (name f) (OVal v) s))"

definition handle_m2m_field ::
  "(options \<Rightarrow> obj list \<Rightarrow> error + out list) \<Rightarrow> options \<Rightarrow> obj \<Rightarrow> field \<Rightarrow> serializer
     \<Rightarrow> error + serializer" where
  "handle_m2m_field ser opts ob f s =
     and_then (rel_of f) (\<lambda>ri.
       if through_auto_created ri then
         if in_relations (name f) (relations opts) then
           and_then (getattr ob (name f)) (\<lambda>m.
           and_then (iterator m) (\<lambda>rs.
           and_then (comprehension
               (\<lambda>related. and_then (ser (nested_options (relations opts) (name f)) [related]) item0)
               rs) (\<lambda>vs.
           set_field (name f) (OList vs) s)))
         else
           and_then (getattr ob (name f)) (\<lambda>m.
           and_then (iterator m) (\<lambda>rs.
           and_then (comprehension
               (if use_natural_keys opts \<and> to_has_natural_key ri
                then (\<lambda>value. natural_key value)
                else (\<lambda>value. smart_str_strings_only (get_pk_val value)))
               rs) (\<lambda>vs.
           set_field (name f) (OList (map OVal vs)) s)))
       else Inr s)"

definition handle_extra_field :: "obj \<Rightarrow> string \<Rightarrow> serializer \<Rightarrow> error + serializer" where
  "handle_extra_field ob field s =
     (if hasattr ob field then
        and_then (getattr ob field) (\<lambda>extra.
          if callable extra then
            and_then (call_method extra) (\<lambda>r.
            and_then (smart_str_strings_only r) (\<lambda>v. set_extra field (OVal v) s))
          else and_then (attr_smart_str extra) (\<lambda>v. set_extra field (OVal v) s))
      else Inr s)"

definition handle_related_m2m_field ::
  "(options \<Rightarrow> obj list \<Rightarrow> error + out list) \<Rightarrow> options \<Rightarrow> obj \<Rightarrow> string \<Rightarrow> serializer
     \<Rightarrow> error + serializer" where
  "handle_related_m2m_field ser opts ob fname s =
     (if in_relations fname (relations opts) then
        and_then (getattr ob fname) (\<lambda>m.
        and_then (iterator m) (\<lambda>rs.
        and_then (comprehension
            (\<lambda>related. and_then (ser (nested_options (relations opts) fname) [related]) item0)
            rs) (\<lambda>vs.
        set_field fname (OList vs) s)))
      else Inr s)"

definition handle_related_fk_field ::
  "(options \<Rightarrow> obj list \<Rightarrow> error + out list) \<Rightarrow> options \<Rightarrow> obj \<Rightarrow> string \<Rightarrow> serializer
     \<Rightarrow> error + serializer" where
  "handle_related_fk_field ser opts ob fname s =
     and_then (getattr ob fname) (\<lambda>related.
       if \<not> is_none related then
         if in_relations fname (relations opts) then
           if is_manager related then
             and_then (iterator related) (\<lambda>rs.
             and_then (ser (nested_options (relations opts) fname) rs) (\<lambda>recs.
             set_field fname (OList recs) s))
           else
             and_then (as_model related) (\<lambda>r.
             and_then (ser (nested_options (relations opts) fname) [r]) (\<lambda>recs.
             and_then (item0 recs) (\<lambda>v. set_field fname v s)))
         else Inr s
       else and_then (attr_smart_str related) (\<lambda>v. set_field fname (OVal v) s))"

section \<open>The field loop of serialize (base.py)\<close>

definition passes_filter :: "options \<Rightarrow> string \<Rightarrow> bool" where
  "passes_filter opts n =
     (n \<notin> set (excludes opts) \<and> (fields opts = [] \<or> n \<in> set (fields opts)))"

definition local_field_step ::
  "(options \<Rightarrow> obj list \<Rightarrow> error + out list) \<Rightarrow> options \<Rightarrow> obj \<Rightarrow> field \<Rightarrow> serializer
     \<Rightarrow> error + serializer" where
  "local_field_step ser opts ob f s =
     (if field_serialize f then
        if rel f = None then
          if attname f \<notin> set (excludes opts) then
            if fields opts = [] \<or> attname f \<in> set (fields opts) then handle_field ob f s
            else Inr s
          else Inr s
        else
          if slice_to_minus3 (attname f) \<notin> set (excludes opts) then
            if fields opts = [] \<or> slice_to_minus3 (attname f) \<in> set (fields opts)
            then handle_fk_field ser opts ob f s
            else Inr s
          else Inr s
      else Inr s)"

definition m2m_step ::
  "(options \<Rightarrow> obj list \<Rightarrow> error + out list) \<Rightarrow> options \<Rightarrow> obj \<Rightarrow> field \<Rightarrow> serializer
     \<Rightarrow> error + serializer" where
  "m2m_step ser opts ob f s =
     (if field_serialize f then
        if attname f \<notin> set (excludes opts) then
          if fields opts = [] \<or> attname f \<in> set (fields opts)
          then handle_m2m_field ser opts ob f s
          else Inr s
        else Inr s
      else Inr s)"

definition related_fk_objects :: "meta \<Rightarrow> related_object list" where
  "related_fk_objects m =
     (case get_all_related_objects m of
        Some ros \<Rightarrow> ros
      | None \<Rightarrow> filter (\<lambda>f. (one_to_many f \<or> one_to_one f) \<and> auto_created f \<and> \<not> concrete f)
                  (get_fields m))"

definition related_m2m_objects :: "meta \<Rightarrow> related_object list" where
  "related_m2m_objects m =
     (case get_all_related_many_to_many_objects m of
        Some ros \<Rightarrow> ros
      | None \<Rightarrow> filter (\<lambda>f. ro_many_to_many f \<and> auto_created f) (get_fields_hidden m))"

definition related_fk_step ::
  "(options \<Rightarrow> obj list \<Rightarrow> error + out list) \<Rightarrow> options \<Rightarrow> obj \<Rightarrow> related_object
     \<Rightarrow> serializer \<Rightarrow> error + serializer" where
  "related_fk_step ser opts ob ro s =
     (if accessor_name ro \<notin> set (excludes opts)
      then handle_related_fk_field ser opts ob (accessor_name ro) s
      else Inr s)"

definition related_m2m_step ::
  "(options \<Rightarrow> obj list \<Rightarrow> error + out list) \<Rightarrow> options \<Rightarrow> obj \<Rightarrow> related_object
     \<Rightarrow> serializer \<Rightarrow> error + serializer" where
  "related_m2m_step ser opts ob ro s =
     (if accessor_name ro \<notin> set (excludes opts)
      then handle_related_m2m_field ser opts ob (accessor_name ro) s
      else Inr s)"

text \<open>The body of the loop over the queryset.\<close>

definition serialize_object ::
  "(options \<Rightarrow> obj list \<Rightarrow> error + out list) \<Rightarrow> options \<Rightarrow> obj \<Rightarrow> serializer
     \<Rightarrow> error + serializer" where
  "serialize_object ser opts ob s =
     and_then (for_each (local_field_step ser opts ob) (local_fields (obj_meta ob))
                 (start_object ob s)) (\<lambda>s1.
     and_then (for_each (m2m_step ser opts ob) (many_to_many (obj_meta ob)) s1) (\<lambda>s2.
     and_then (for_each (related_fk_step ser opts ob)
                 (related_fk_objects (obj_meta ob)) s2) (\<lambda>s3.
     and_then (for_each (related_m2m_step ser opts ob)
                 (related_m2m_objects (obj_meta ob)) s3) (\<lambda>s4.
     and_then (for_each (handle_extra_field ob) (extras opts) s4) (\<lambda>s5.
     end_object ob s5)))))"

text \<open>\<^verbatim>\<open>serialize\<close>, with \<open>ser\<close> for the calls of the nested serializers.\<close>

definition serialize_with ::
  "(options \<Rightarrow> obj list \<Rightarrow> error + out list) \<Rightarrow> options \<Rightarrow> obj list \<Rightarrow> error + out list" where
  "serialize_with ser opts queryset =
     and_then (for_each (serialize_object ser opts) queryset start_serialization)
       (\<lambda>s. Inr (objects s))"

section \<open>The recursion through nested serializers\<close>

text \<open>
  A handler calls the nested serializer only on the options that \<^verbatim>\<open>relations\<close> holds
  for a name in it (or on the empty options). These are strictly smaller than the
  options of the call, which is why \<^verbatim>\<open>serialize\<close> is a total function here whatever
  the object graph is.
\<close>

lemma and_then_Inl [simp]: "and_then (Inl e) f = Inl e"
  by (simp add: and_then_def)

lemma and_then_Inr [simp]: "and_then (Inr x) f = f x"
  by (simp add: and_then_def)

lemma and_then_eq_Inr [simp]: "(and_then m f = Inr y) = (\<exists>x. m = Inr x \<and> f x = Inr y)"
  by (cases m) simp_all

lemma and_then_cong [fundef_cong]:
  "m = m' \<Longrightarrow> (\<And>x. m' = Inr x \<Longrightarrow> f x = f' x) \<Longrightarrow> and_then m f = and_then m' f'"
  by (cases m') simp_all

lemma for_each_cong [fundef_cong]:
  "xs = ys \<Longrightarrow> s = t \<Longrightarrow> (\<And>x u. x \<in> set ys \<Longrightarrow> f x u = g x u) \<Longrightarrow> for_each f xs s = for_each g ys t"
  by (induction ys arbitrary: xs s t) (auto split: sum.splits)

lemma comprehension_cong [fundef_cong]:
  "xs = ys \<Longrightarrow> (\<And>x. x \<in> set ys \<Longrightarrow> f x = g x) \<Longrightarrow> comprehension f xs = comprehension g ys"
  by (induction ys arbitrary: xs) (auto split: sum.splits)

definition sub_options :: "options \<Rightarrow> options set" where
  "sub_options opts = {nested_options (relations opts) n | n. in_relations n (relations opts)}"

lemma handle_fk_field_ser:
  assumes "\<And>opts' os. opts' \<in> sub_options opts \<Longrightarrow> ser opts' os = ser' opts' os"
  shows "handle_fk_field ser opts ob f s = handle_fk_field ser' opts ob f s"
proof -
  have "in_relations (name f) (relations opts) \<Longrightarrow>
     ser (nested_options (relations opts) (name f)) = ser' (nested_options (relations opts) (name f))"
    using assms by (auto simp: sub_options_def)
  then show ?thesis
  unfolding handle_fk_field_def
  by (intro and_then_cong refl if_cong) auto
qed

lemma handle_m2m_field_ser:
  assumes "\<And>opts' os. opts' \<in> sub_options opts \<Longrightarrow> ser opts' os = ser' opts' os"
  shows "handle_m2m_field ser opts ob f s = handle_m2m_field ser' opts ob f s"
proof -
  have "in_relations (name f) (relations opts) \<Longrightarrow>
     ser (nested_options (relations opts) (name f)) = ser' (nested_options (relations opts) (name f))"
    using assms by (auto simp: sub_options_def)
  then show ?thesis
  unfolding handle_m2m_field_def
  by (intro and_then_cong refl if_cong) auto
qed

lemma handle_related_m2m_field_ser:
  assumes "\<And>opts' os. opts' \<in> sub_options opts \<Longrightarrow> ser opts' os = ser' opts' os"
  shows "handle_related_m2m_field ser opts ob n s = handle_related_m2m_field ser' opts ob n s"
proof -
  have "in_relations n (relations opts) \<Longrightarrow>
     ser (nested_options (relations opts) n) = ser' (nested_options (relations opts) n)"
    using assms by (auto simp: sub_options_def)
  then show ?thesis
  unfolding handle_related_m2m_field_def
  by (intro and_then_cong refl if_cong) auto
qed

lemma handle_related_fk_field_ser:
  assumes "\<And>opts' os. opts' \<in> sub_options opts \<Longrightarrow> ser opts' os = ser' opts' os"
  shows "handle_related_fk_field ser opts ob n s = handle_related_fk_field ser' opts ob n s"
proof -
  have "in_relations n (relations opts) \<Longrightarrow>
     ser (nested_options (relations opts) n) = ser' (nested_options (relations opts) n)"
    using assms by (auto simp: sub_options_def)
  then show ?thesis
  unfolding handle_related_fk_field_def
  by (intro and_then_cong refl if_cong) auto
qed

lemma serialize_object_ser:
  assumes "\<And>opts' os. opts' \<in> sub_options opts \<Longrightarrow> ser opts' os = ser' opts' os"
  shows "serialize_object ser opts ob s = serialize_object ser' opts ob s"
proof -
  have 1: "local_field_step ser opts ob = local_field_step ser' opts ob"
    by (intro ext) (simp add: local_field_step_def handle_fk_field_ser [OF assms])
  have 2: "m2m_step ser opts ob = m2m_step ser' opts ob"
    by (intro ext) (simp add: m2m_step_def handle_m2m_field_ser [OF assms])
  have 3: "related_fk_step ser opts ob = related_fk_step ser' opts ob"
    by (intro ext) (simp add: related_fk_step_def handle_related_fk_field_ser [OF assms])
  have 4: "related_m2m_step ser opts ob = related_m2m_step ser' opts ob"
    by (intro ext) (simp add: related_m2m_step_def handle_related_m2m_field_ser [OF assms])
  show ?thesis by (simp add: serialize_object_def 1 2 3 4)
qed

lemma serialize_with_cong [fundef_cong]:
  assumes "opts = opts'" "queryset = queryset'"
    and "\<And>o' os. o' \<in> sub_options opts' \<Longrightarrow> ser o' os = ser' o' os"
  shows "serialize_with ser opts queryset = serialize_with ser' opts' queryset'"
proof -
  have "serialize_object ser opts' = serialize_object ser' opts'"
    by (intro ext) (rule serialize_object_ser [OF assms(3)])
  then show ?thesis by (simp add: serialize_with_def assms(1,2))
qed

text \<open>
  \<^verbatim>\<open>Serializer.serialize\<close>: every nested \<^verbatim>\<open>Serializer().serialize(..., **options)\<close> is
  the function itself.
\<close>

function serialize :: "options \<Rightarrow> obj list \<Rightarrow> error + out list" where
  "serialize opts queryset = serialize_with (\<lambda>opts' objs. serialize opts' objs) opts queryset"
  by pat_completeness auto

text \<open>The measure: the size of the options, and 0 when no name is in \<^verbatim>\<open>relations\<close>.\<close>


lemma map_of_size_lt:
  "map_of kvs n = Some (Some opts') \<Longrightarrow>
     size opts' < Suc (size_list (size_prod (\<lambda>_. 0) (size_option size)) kvs)"
  by (induction kvs) (auto split: if_splits)

definition depth_measure :: "options \<Rightarrow> nat" where
  "depth_measure opts = (if (\<exists>n. in_relations n (relations opts)) then size opts else 0)"

lemma sub_options_measure:
  assumes "opts' \<in> sub_options opts"
  shows "depth_measure opts' < depth_measure opts"
proof -
  from assms obtain n where n: "in_relations n (relations opts)"
    and o: "opts' = nested_options (relations opts) n"
    by (auto simp: sub_options_def)
  have e: "depth_measure empty_options = 0"
    by (simp add: depth_measure_def empty_options_def)
  have pos: "0 < depth_measure opts"
    using n by (cases opts) (auto simp: depth_measure_def)
  have le: "depth_measure opts' \<le> size opts'" for opts'
    by (simp add: depth_measure_def)
  show ?thesis
  proof (cases "relations opts")
    case (RelList ns)
    then show ?thesis using o e pos by simp
  next
    case (RelDict kvs)
    show ?thesis
    proof (cases "map_of kvs n")
      case None
      then show ?thesis using o e pos RelDict by simp
    next
      case (Some x)
      show ?thesis
      proof (cases x)
        case None
        then show ?thesis using o e pos RelDict Some by simp
      next
        case (Some y)
        with \<open>map_of kvs n = Some x\<close> have "size y < Suc (size_list (size_prod (\<lambda>_. 0) (size_option size)) kvs)"
          by (simp add: map_of_size_lt)
        moreover have "opts' = y" using o RelDict Some \<open>map_of kvs n = Some x\<close> by simp
        moreover have "size opts = Suc (Suc (size_list (size_prod (\<lambda>_. 0) (size_option size)) kvs))"
          using RelDict by (cases opts) simp
        moreover have "depth_measure opts = size opts" using n by (auto simp: depth_measure_def)
        ultimately show ?thesis using le [of y] by simp
      qed
    qed
  qed
qed

termination serialize
  by (relation "measure (\<lambda>(opts, queryset). depth_measure opts)") (auto simp: sub_options_measure)


declare serialize.simps [simp del]

section \<open>A small object graph\<close>

text \<open>
  Authors, books and tags, as in the scenario of the specification: a book has a foreign
  key \<open>author\<close> (column \<open>author_id\<close>), a many-to-many field \<open>tags\<close> with an automatic
  association table and a many-to-many field \<open>editors\<close> with an association model of its
  own; an author has the reverse accessor \<open>book_set\<close> and the reverse one-to-one accessor
  \<open>profile\<close>. The primary-key field \<open>id\<close> is not serializable, as Django sets it.
\<close>

definition id_field :: field where
  "id_field = \<lparr>name = ''id'', attname = ''id'', field_serialize = False, rel = None,
     to_string = force_text\<rparr>"

definition name_field :: field where
  "name_field = \<lparr>name = ''name'', attname = ''name'', field_serialize = True, rel = None,
     to_string = force_text\<rparr>"

definition title_field :: field where
  "title_field = \<lparr>name = ''title'', attname = ''title'', field_serialize = True, rel = None,
     to_string = force_text\<rparr>"

definition author_field :: field where
  "author_field = \<lparr>name = ''author'', attname = ''author_id'', field_serialize = True,
     rel = Some \<lparr>field_name = ''id'', through_auto_created = False,
                 to_has_natural_key = False\<rparr>,
     to_string = force_text\<rparr>"

definition tags_field :: field where
  "tags_field = \<lparr>name = ''tags'', attname = ''tags'', field_serialize = True,
     rel = Some \<lparr>field_name = ''id'', through_auto_created = True,
                 to_has_natural_key = False\<rparr>,
     to_string = force_text\<rparr>"

definition editors_field :: field where
  "editors_field = \<lparr>name = ''editors'', attname = ''editors'', field_serialize = True,
     rel = Some \<lparr>field_name = ''id'', through_auto_created = False,
                 to_has_natural_key = False\<rparr>,
     to_string = force_text\<rparr>"

definition reverse_fk :: "string \<Rightarrow> related_object" where
  "reverse_fk n = \<lparr>accessor_name = n, one_to_many = True, one_to_one = False,
     ro_many_to_many = False, auto_created = True, concrete = False, hidden = False\<rparr>"

definition reverse_one_to_one :: "string \<Rightarrow> related_object" where
  "reverse_one_to_one n = \<lparr>accessor_name = n, one_to_many = False, one_to_one = True,
     ro_many_to_many = False, auto_created = True, concrete = False, hidden = False\<rparr>"

definition reverse_m2m :: "string \<Rightarrow> related_object" where
  "reverse_m2m n = \<lparr>accessor_name = n, one_to_many = False, one_to_one = False,
     ro_many_to_many = True, auto_created = True, concrete = False, hidden = False\<rparr>"

definition author_meta :: meta where
  "author_meta = \<lparr>label = ''app.author'', pk_name = ''id'',
     local_fields = [id_field, name_field], many_to_many = [],
     get_all_related_objects = None, get_all_related_many_to_many_objects = None,
     get_fields_hidden = [reverse_fk ''book_set'', reverse_one_to_one ''profile'']\<rparr>"

definition book_meta :: meta where
  "book_meta = \<lparr>label = ''app.book'', pk_name = ''id'',
     local_fields = [id_field, title_field, author_field],
     many_to_many = [tags_field, editors_field],
     get_all_related_objects = None, get_all_related_many_to_many_objects = None,
     get_fields_hidden = []\<rparr>"

definition tag_meta :: meta where
  "tag_meta = \<lparr>label = ''app.tag'', pk_name = ''id'',
     local_fields = [id_field, name_field], many_to_many = [],
     get_all_related_objects = None, get_all_related_many_to_many_objects = None,
     get_fields_hidden = [reverse_m2m ''book_set'']\<rparr>"

definition profile_meta :: meta where
  "profile_meta = \<lparr>label = ''app.profile'', pk_name = ''id'',
     local_fields = [id_field, title_field], many_to_many = [],
     get_all_related_objects = None, get_all_related_many_to_many_objects = None,
     get_fields_hidden = []\<rparr>"

definition tag :: "int \<Rightarrow> string \<Rightarrow> obj list \<Rightarrow> obj" where
  "tag i w bs = Obj tag_meta (VInt i) ''Tag object''
     [(''id'', AValue (VInt i)), (''name'', AValue (VStr w)), (''book_set'', AManager bs)]"

definition profile :: "int \<Rightarrow> string \<Rightarrow> obj" where
  "profile i t = Obj profile_meta (VInt i) ''Profile object''
     [(''id'', AValue (VInt i)), (''title'', AValue (VStr t))]"

text \<open>
  An author with its books and its profile, a method \<open>initial\<close> that returns a string, a
  method \<open>books_written\<close> that returns an integer and a method \<open>lucky_numbers\<close> that
  returns a list. An author without a profile has no attribute \<open>profile\<close>: reading it
  raises.
\<close>

definition author :: "int \<Rightarrow> string \<Rightarrow> obj list \<Rightarrow> obj option \<Rightarrow> obj" where
  "author i n bs pr = Obj author_meta (VInt i) ''Author object''
     ([(''id'', AValue (VInt i)), (''name'', AValue (VStr n)), (''book_set'', AManager bs),
       (''initial'', AMethod (VStr (take 1 n))),
       (''books_written'', AMethod (VInt (int (length bs)))),
       (''lucky_numbers'', AMethod (VOther ''[3, 7]''))]
      @ (case pr of None \<Rightarrow> [] | Some r \<Rightarrow> [(''profile'', ARelated r)]))"

definition book :: "int \<Rightarrow> string \<Rightarrow> obj option \<Rightarrow> obj list \<Rightarrow> obj" where
  "book i t a ts = Obj book_meta (VInt i) ''Book object''
     [(''id'', AValue (VInt i)), (''title'', AValue (VStr t)),
      (''author_id'', (case a of None \<Rightarrow> AValue VNone | Some r \<Rightarrow> AValue (get_pk_val r))),
      (''author'', (case a of None \<Rightarrow> AValue VNone | Some r \<Rightarrow> ARelated r)),
      (''tags'', AManager ts), (''editors'', AManager [])]"

definition alice :: obj where
  "alice = author 1 ''Alice'' [] (Some (profile 7 ''Bio''))"

definition book_x :: obj where
  "book_x = book 10 ''X'' (Some alice) [tag 3 ''a'' []]"

lemmas example_defs = id_field_def name_field_def title_field_def author_field_def
  tags_field_def editors_field_def reverse_fk_def reverse_one_to_one_def reverse_m2m_def
  author_meta_def book_meta_def tag_meta_def profile_meta_def tag_def profile_def author_def
  book_def alice_def book_x_def

section \<open>Properties of the handlers\<close>

lemma set_field_Some:
  "s_fields s = Some d \<Longrightarrow>
     set_field k v s = Inr (s\<lparr>s_fields := Some (AList.update k v d)\<rparr>)"
  by (simp add: set_field_def)

lemma set_extra_Some:
  "s_extras s = Some d \<Longrightarrow>
     set_extra k v s = Inr (s\<lparr>s_extras := Some (AList.update k v d)\<rparr>)"
  by (simp add: set_extra_def)

lemma smart_str_protected:
  "is_protected_type v \<Longrightarrow> smart_str_strings_only v = Inr v"
  by (simp add: smart_str_strings_only_def)

lemma smart_str_text:
  "\<not> is_protected_type v \<Longrightarrow> force_text v = Inr t \<Longrightarrow> smart_str_strings_only v = Inr (VStr t)"
  by (simp add: smart_str_strings_only_def)

lemma smart_str_raises:
  "\<not> is_protected_type v \<Longrightarrow> force_text v = Inl e \<Longrightarrow> smart_str_strings_only v = Inl e"
  by (simp add: smart_str_strings_only_def)

lemma force_text_total: "v \<noteq> VBytes None \<Longrightarrow> \<exists>t. force_text v = Inr t"
  by (cases v rule: force_text.cases) simp_all

text \<open>
  C9. A forward foreign key whose related object is absent: \<^verbatim>\<open>handle_fk_field\<close> does
  not fail and stores, under the field name, what
  \<^verbatim>\<open>smart_str(None, strings_only=True)\<close> returns, which is \<^verbatim>\<open>None\<close> itself and not a
  string. This holds for all options, so whether or not the name is in \<^verbatim>\<open>relations\<close>.
\<close>

theorem fk_absent_stores_none:
  assumes "getattr ob (name f) = Inr (AValue VNone)" and "s_fields s = Some d"
  shows "handle_fk_field ser opts ob f s
           = Inr (s\<lparr>s_fields := Some (AList.update (name f) (OVal VNone) d)\<rparr>)"
  using assms by (simp add: handle_fk_field_def smart_str_protected set_field_Some)

theorem fk_absent_stores_none_witness:
  "getattr (book 10 ''X'' None []) (name author_field) = Inr (AValue VNone)
   \<and> handle_fk_field serialize (Options [] [] (RelList [''author'']) [] False)
        (book 10 ''X'' None []) author_field
        \<lparr>s_fields = Some [(''title'', OVal (VStr ''X''))], s_extras = Some [], objects = []\<rparr>
      = Inr \<lparr>s_fields = Some [(''title'', OVal (VStr ''X'')), (''author'', OVal VNone)],
             s_extras = Some [], objects = []\<rparr>"
  using fk_absent_stores_none [of "book 10 ''X'' None []" author_field
      "\<lparr>s_fields = Some [(''title'', OVal (VStr ''X''))], s_extras = Some [], objects = []\<rparr>"
      "[(''title'', OVal (VStr ''X''))]" serialize "Options [] [] (RelList [''author'']) [] False"]
  by (simp add: book_def author_field_def getattr_def)

text \<open>
  The claim as the specification words it (the string form of the absent value is
  stored) fails: the string form of \<^verbatim>\<open>None\<close> is the text \<^verbatim>\<open>None\<close>, and the value
  stored is not that string.
\<close>

theorem fk_absent_string_form_counterexample:
  "handle_fk_field serialize empty_options (book 10 ''X'' None []) author_field
        \<lparr>s_fields = Some [], s_extras = Some [], objects = []\<rparr>
      = Inr \<lparr>s_fields = Some [(''author'', OVal VNone)], s_extras = Some [], objects = []\<rparr>
   \<and> force_text VNone = Inr ''None'' \<and> OVal VNone \<noteq> OVal (VStr ''None'')"
  by (simp add: book_def author_field_def getattr_def handle_fk_field_def
        smart_str_strings_only_def set_field_def)

text \<open>
  C10. A many-to-many field whose association model is not created by the framework:
  \<^verbatim>\<open>handle_m2m_field\<close> returns without an error and leaves the serializer as it was, so
  it stores nothing under the field name, whatever the options are (the name may be in
  \<^verbatim>\<open>fields\<close> and in \<^verbatim>\<open>relations\<close>).
\<close>

theorem m2m_custom_through_stores_nothing:
  assumes "rel f = Some ri" and "\<not> through_auto_created ri"
  shows "handle_m2m_field ser opts ob f s = Inr s"
  using assms by (simp add: handle_m2m_field_def rel_of_def)

theorem m2m_custom_through_stores_nothing_witness:
  "rel editors_field
     = Some \<lparr>field_name = ''id'', through_auto_created = False, to_has_natural_key = False\<rparr>
   \<and> handle_m2m_field serialize
        (Options [''editors''] [] (RelList [''editors'']) [] False)
        (book 10 ''X'' None []) editors_field
        \<lparr>s_fields = Some [(''title'', OVal (VStr ''X''))], s_extras = Some [], objects = []\<rparr>
      = Inr \<lparr>s_fields = Some [(''title'', OVal (VStr ''X''))], s_extras = Some [],
             objects = []\<rparr>
   \<and> serialize (Options [''editors''] [] (RelList [''editors'']) [] False)
        [book 10 ''X'' None []]
      = Inr [ODict [(''model'', OVal (VStr ''app.book'')), (''pk'', OVal (VInt 10)),
                    (''fields'', ODict [])]]"
proof -
  have r: "rel editors_field
     = Some \<lparr>field_name = ''id'', through_auto_created = False, to_has_natural_key = False\<rparr>"
    by (simp add: editors_field_def)
  have e: "serialize (Options [''editors''] [] (RelList [''editors'']) [] False)
        [book 10 ''X'' None []]
      = Inr [ODict [(''model'', OVal (VStr ''app.book'')), (''pk'', OVal (VInt 10)),
                    (''fields'', ODict [])]]"
    by code_simp
  show ?thesis
    using r e m2m_custom_through_stores_nothing [OF r, of serialize
        "Options [''editors''] [] (RelList [''editors'']) [] False" "book 10 ''X'' None []"
        "\<lparr>s_fields = Some [(''title'', OVal (VStr ''X''))], s_extras = Some [],
          objects = []\<rparr>"]
    by simp
qed

text \<open>
  C4. A forward foreign key that is not expanded, with natural keys off, that refers to
  the primary key of its target, and whose related object is present:
  \<^verbatim>\<open>handle_fk_field\<close> stores the primary-key value of the related object as
  \<^verbatim>\<open>_get_pk_val()\<close> returns it. No string conversion is applied on this path.
\<close>

theorem fk_reference_is_pk_value:
  assumes "getattr ob (name f) = Inr (ARelated r)"
    and "\<not> in_relations (name f) (relations opts)"
    and "\<not> use_natural_keys opts"
    and "rel f = Some ri" and "field_name ri = pk_name (obj_meta r)"
    and "s_fields s = Some d"
  shows "handle_fk_field ser opts ob f s
           = Inr (s\<lparr>s_fields := Some (AList.update (name f) (OVal (get_pk_val r)) d)\<rparr>)"
  using assms by (simp add: handle_fk_field_def rel_of_def set_field_Some)

theorem fk_reference_is_pk_value_witness:
  "getattr (book 10 ''X'' (Some (author 1 ''Alice'' [] None)) []) (name author_field)
     = Inr (ARelated (author 1 ''Alice'' [] None))
   \<and> handle_fk_field serialize empty_options
        (book 10 ''X'' (Some (author 1 ''Alice'' [] None)) []) author_field
        \<lparr>s_fields = Some [(''title'', OVal (VStr ''X''))], s_extras = Some [], objects = []\<rparr>
      = Inr \<lparr>s_fields = Some [(''title'', OVal (VStr ''X'')), (''author'', OVal (VInt 1))],
             s_extras = Some [], objects = []\<rparr>"
  using fk_reference_is_pk_value [of "book 10 ''X'' (Some (author 1 ''Alice'' [] None)) []"
      author_field "author 1 ''Alice'' [] None" empty_options
      "\<lparr>field_name = ''id'', through_auto_created = False, to_has_natural_key = False\<rparr>"
      "\<lparr>s_fields = Some [(''title'', OVal (VStr ''X''))], s_extras = Some [], objects = []\<rparr>"
      "[(''title'', OVal (VStr ''X''))]" serialize]
  by (simp add: book_def author_def author_field_def author_meta_def getattr_def
        empty_options_def)

text \<open>
  The claim as the specification words it (the string form of the primary key is
  stored) fails for an integer primary key: the integer is stored, not its text.
\<close>

theorem fk_reference_string_form_counterexample:
  "handle_fk_field serialize empty_options
        (book 10 ''X'' (Some (author 1 ''Alice'' [] None)) []) author_field
        \<lparr>s_fields = Some [], s_extras = Some [], objects = []\<rparr>
      = Inr \<lparr>s_fields = Some [(''author'', OVal (VInt 1))], s_extras = Some [], objects = []\<rparr>
   \<and> force_text (VInt 1) = Inr ''1'' \<and> OVal (VInt 1) \<noteq> OVal (VStr ''1'')"
  by (simp add: book_def author_def author_field_def author_meta_def getattr_def
        handle_fk_field_def empty_options_def rel_of_def set_field_def str_int_def
        str_nat.simps)

lemma comprehension_list_all2:
  "(comprehension f xs = Inr ys) = list_all2 (\<lambda>x y. f x = Inr y) xs ys"
proof (induction xs arbitrary: ys)
  case Nil
  show ?case by auto
next
  case (Cons x xs)
  show ?case
  proof (cases ys)
    case Nil
    then show ?thesis by (simp split: sum.splits)
  next
    case (Cons y ys')
    with Cons.IH [of ys'] show ?thesis by (auto split: sum.splits)
  qed
qed

text \<open>
  C5. A many-to-many field with an automatic association table, not expanded, with
  natural keys off: \<^verbatim>\<open>handle_m2m_field\<close> stores a list that holds, for each related
  object in the order of the iteration, \<^verbatim>\<open>smart_str(pk, strings_only=True)\<close> of its
  primary key. When the keys are of a protected type (integers, say) the list is the list
  of the keys themselves.
\<close>

theorem m2m_reference_list:
  assumes "rel f = Some ri" and "through_auto_created ri"
    and "\<not> in_relations (name f) (relations opts)" and "\<not> use_natural_keys opts"
    and "getattr ob (name f) = Inr (AManager rs)"
    and "list_all2 (\<lambda>r v. smart_str_strings_only (get_pk_val r) = Inr v) rs vs"
    and "s_fields s = Some d"
  shows "handle_m2m_field ser opts ob f s
           = Inr (s\<lparr>s_fields := Some (AList.update (name f) (OList (map OVal vs)) d)\<rparr>)
         \<and> length vs = length rs
         \<and> ((\<forall>r \<in> set rs. is_protected_type (get_pk_val r)) \<longrightarrow> vs = map get_pk_val rs)"
proof -
  have c: "comprehension (\<lambda>value. smart_str_strings_only (get_pk_val value)) rs = Inr vs"
    using assms(6) by (simp add: comprehension_list_all2)
  have h: "handle_m2m_field ser opts ob f s
           = Inr (s\<lparr>s_fields := Some (AList.update (name f) (OList (map OVal vs)) d)\<rparr>)"
    using assms c by (simp add: handle_m2m_field_def rel_of_def set_field_Some)
  have l: "length vs = length rs"
    using assms(6) by (simp add: list_all2_lengthD)
  have p: "vs = map get_pk_val rs" if "\<forall>r \<in> set rs. is_protected_type (get_pk_val r)"
    using assms(6) that
    by (induction rs vs rule: list_all2_induct) (auto simp: smart_str_protected)
  show ?thesis using h l p by blast
qed

theorem m2m_reference_list_witness:
  "rel tags_field
     = Some \<lparr>field_name = ''id'', through_auto_created = True, to_has_natural_key = False\<rparr>
   \<and> getattr (book 10 ''X'' None [tag 4 ''b'' [], tag 3 ''a'' []]) (name tags_field)
       = Inr (AManager [tag 4 ''b'' [], tag 3 ''a'' []])
   \<and> list_all2 (\<lambda>r v. smart_str_strings_only (get_pk_val r) = Inr v)
       [tag 4 ''b'' [], tag 3 ''a'' []] [VInt 4, VInt 3]
   \<and> handle_m2m_field serialize empty_options
        (book 10 ''X'' None [tag 4 ''b'' [], tag 3 ''a'' []]) tags_field
        \<lparr>s_fields = Some [], s_extras = Some [], objects = []\<rparr>
      = Inr \<lparr>s_fields = Some [(''tags'', OList [OVal (VInt 4), OVal (VInt 3)])],
             s_extras = Some [], objects = []\<rparr>"
proof -
  have r: "rel tags_field
     = Some \<lparr>field_name = ''id'', through_auto_created = True, to_has_natural_key = False\<rparr>"
    by (simp add: tags_field_def)
  have g: "getattr (book 10 ''X'' None [tag 4 ''b'' [], tag 3 ''a'' []]) (name tags_field)
       = Inr (AManager [tag 4 ''b'' [], tag 3 ''a'' []])"
    by (simp add: getattr_def book_def tags_field_def)
  have l: "list_all2 (\<lambda>r v. smart_str_strings_only (get_pk_val r) = Inr v)
       [tag 4 ''b'' [], tag 3 ''a'' []] [VInt 4, VInt 3]"
    by (simp add: tag_def smart_str_strings_only_def)
  show ?thesis
    using r g l m2m_reference_list [OF r _ _ _ g l, of empty_options
        "\<lparr>s_fields = Some [], s_extras = Some [], objects = []\<rparr>" "[]" serialize]
    by (simp add: empty_options_def tags_field_def)
qed

text \<open>
  The claim as the specification words it (a sequence of primary-key strings) fails for
  integer primary keys: the list holds the integers.
\<close>

theorem m2m_reference_strings_counterexample:
  "handle_m2m_field serialize empty_options
        (book 10 ''X'' None [tag 4 ''b'' [], tag 3 ''a'' []]) tags_field
        \<lparr>s_fields = Some [], s_extras = Some [], objects = []\<rparr>
      = Inr \<lparr>s_fields = Some [(''tags'', OList [OVal (VInt 4), OVal (VInt 3)])],
             s_extras = Some [], objects = []\<rparr>
   \<and> force_text (VInt 4) = Inr ''4'' \<and> force_text (VInt 3) = Inr ''3''
   \<and> OList [OVal (VInt 4), OVal (VInt 3)] \<noteq> OList [OVal (VStr ''4''), OVal (VStr ''3'')]"
  by (simp add: handle_m2m_field_def rel_of_def tags_field_def book_def tag_def getattr_def
        empty_options_def smart_str_strings_only_def set_field_def str_int_def str_nat.simps)

text \<open>
  C8. The names in \<^verbatim>\<open>extras\<close>. For a method without arguments the name is bound, in
  \<^verbatim>\<open>_extras\<close>, to the value the method returns when that value is of a protected type,
  and to the text of the value otherwise (a string as it is, a bytes object decoded, any
  other object, a list say, through \<^verbatim>\<open>str\<close>); when the conversion raises, so does the
  handler. The same holds for an attribute that holds a plain value; an attribute that
  holds a model instance is bound to \<^verbatim>\<open>str\<close> of the instance. For a name the object does
  not have, nothing is stored and no error is raised. The conversion to text is defined
  for every value but a bytes object that is not valid UTF-8.
\<close>

theorem extra_field_values:
  assumes "s_extras s = Some e"
  shows "(getattr ob n = Inr (AMethod r) \<and> is_protected_type r \<longrightarrow>
            handle_extra_field ob n s = Inr (s\<lparr>s_extras := Some (AList.update n (OVal r) e)\<rparr>))
     \<and> (getattr ob n = Inr (AMethod r) \<and> \<not> is_protected_type r \<and> force_text r = Inr t \<longrightarrow>
            handle_extra_field ob n s
              = Inr (s\<lparr>s_extras := Some (AList.update n (OVal (VStr t)) e)\<rparr>))
     \<and> (getattr ob n = Inr (AMethod r) \<and> \<not> is_protected_type r \<and> force_text r = Inl err \<longrightarrow>
            handle_extra_field ob n s = Inl err)
     \<and> (getattr ob n = Inr (AValue x) \<and> is_protected_type x \<longrightarrow>
            handle_extra_field ob n s = Inr (s\<lparr>s_extras := Some (AList.update n (OVal x) e)\<rparr>))
     \<and> (getattr ob n = Inr (AValue x) \<and> \<not> is_protected_type x \<and> force_text x = Inr t \<longrightarrow>
            handle_extra_field ob n s
              = Inr (s\<lparr>s_extras := Some (AList.update n (OVal (VStr t)) e)\<rparr>))
     \<and> (getattr ob n = Inr (AValue x) \<and> \<not> is_protected_type x \<and> force_text x = Inl err \<longrightarrow>
            handle_extra_field ob n s = Inl err)
     \<and> (getattr ob n = Inr (ARelated rel_ob) \<longrightarrow>
            handle_extra_field ob n s
              = Inr (s\<lparr>s_extras := Some (AList.update n (OVal (VStr (obj_str rel_ob))) e)\<rparr>))
     \<and> (\<not> hasattr ob n \<longrightarrow> handle_extra_field ob n s = Inr s)
     \<and> (r \<noteq> VBytes None \<longrightarrow> (\<exists>t'. force_text r = Inr t'))"
proof -
  have h: "hasattr ob n" if "getattr ob n = Inr a" for a
    using that by (auto simp: getattr_def hasattr_def split: option.splits)
  have m: "handle_extra_field ob n s
             = and_then (smart_str_strings_only r) (\<lambda>v. set_extra n (OVal v) s)"
    if "getattr ob n = Inr (AMethod r)"
    using that h [OF that] by (simp add: handle_extra_field_def)
  have a: "handle_extra_field ob n s
             = and_then (smart_str_strings_only x) (\<lambda>v. set_extra n (OVal v) s)"
    if "getattr ob n = Inr (AValue x)"
    using that h [OF that] by (simp add: handle_extra_field_def)
  have i: "handle_extra_field ob n s = set_extra n (OVal (VStr (obj_str rel_ob))) s"
    if "getattr ob n = Inr (ARelated rel_ob)"
    using that h [OF that] by (simp add: handle_extra_field_def)
  have z: "handle_extra_field ob n s = Inr s" if "\<not> hasattr ob n"
    using that by (simp add: handle_extra_field_def)
  show ?thesis
    using assms m a i z force_text_total [of r]
    by (auto simp: smart_str_protected smart_str_text smart_str_raises set_extra_Some)
qed

theorem extra_field_values_witness:
  "handle_extra_field alice ''books_written''
       \<lparr>s_fields = Some [], s_extras = Some [], objects = []\<rparr>
     = Inr \<lparr>s_fields = Some [], s_extras = Some [(''books_written'', OVal (VInt 0))],
            objects = []\<rparr>
   \<and> handle_extra_field alice ''initial''
       \<lparr>s_fields = Some [], s_extras = Some [], objects = []\<rparr>
     = Inr \<lparr>s_fields = Some [], s_extras = Some [(''initial'', OVal (VStr ''A''))],
            objects = []\<rparr>
   \<and> handle_extra_field alice ''lucky_numbers''
       \<lparr>s_fields = Some [], s_extras = Some [], objects = []\<rparr>
     = Inr \<lparr>s_fields = Some [], s_extras = Some [(''lucky_numbers'', OVal (VStr ''[3, 7]''))],
            objects = []\<rparr>
   \<and> handle_extra_field alice ''id''
       \<lparr>s_fields = Some [], s_extras = Some [], objects = []\<rparr>
     = Inr \<lparr>s_fields = Some [], s_extras = Some [(''id'', OVal (VInt 1))], objects = []\<rparr>
   \<and> handle_extra_field alice ''name''
       \<lparr>s_fields = Some [], s_extras = Some [], objects = []\<rparr>
     = Inr \<lparr>s_fields = Some [], s_extras = Some [(''name'', OVal (VStr ''Alice''))],
            objects = []\<rparr>
   \<and> handle_extra_field alice ''profile''
       \<lparr>s_fields = Some [], s_extras = Some [], objects = []\<rparr>
     = Inr \<lparr>s_fields = Some [], s_extras = Some [(''profile'', OVal (VStr ''Profile object''))],
            objects = []\<rparr>
   \<and> handle_extra_field alice ''nope''
       \<lparr>s_fields = Some [], s_extras = Some [], objects = []\<rparr>
     = Inr \<lparr>s_fields = Some [], s_extras = Some [], objects = []\<rparr>
   \<and> handle_extra_field
       (Obj author_meta (VInt 2) ''Author object'' [(''raw'', AValue (VBytes None))]) ''raw''
       \<lparr>s_fields = Some [], s_extras = Some [], objects = []\<rparr>
     = Inl UnicodeDecodeError"
proof -
  have e: "s_extras \<lparr>s_fields = Some [], s_extras = Some [], objects = []\<rparr> = Some []"
    by simp
  have 1: "handle_extra_field alice ''books_written''
       \<lparr>s_fields = Some [], s_extras = Some [], objects = []\<rparr>
     = Inr \<lparr>s_fields = Some [], s_extras = Some [(''books_written'', OVal (VInt 0))],
            objects = []\<rparr>"
    using extra_field_values [OF e, of alice "''books_written''" "VInt 0"]
    by (simp add: alice_def author_def getattr_def)
  have 2: "handle_extra_field alice ''initial''
       \<lparr>s_fields = Some [], s_extras = Some [], objects = []\<rparr>
     = Inr \<lparr>s_fields = Some [], s_extras = Some [(''initial'', OVal (VStr ''A''))],
            objects = []\<rparr>"
    using extra_field_values [OF e, of alice "''initial''" "VStr ''A''" "''A''"]
    by (simp add: alice_def author_def getattr_def)
  have 3: "handle_extra_field alice ''lucky_numbers''
       \<lparr>s_fields = Some [], s_extras = Some [], objects = []\<rparr>
     = Inr \<lparr>s_fields = Some [], s_extras = Some [(''lucky_numbers'', OVal (VStr ''[3, 7]''))],
            objects = []\<rparr>"
    using extra_field_values [OF e, of alice "''lucky_numbers''" "VOther ''[3, 7]''" "''[3, 7]''"]
    by (simp add: alice_def author_def getattr_def)
  have 4: "handle_extra_field alice ''id''
       \<lparr>s_fields = Some [], s_extras = Some [], objects = []\<rparr>
     = Inr \<lparr>s_fields = Some [], s_extras = Some [(''id'', OVal (VInt 1))], objects = []\<rparr>"
    using extra_field_values [OF e, of alice "''id''" _ _ _ "VInt 1"]
    by (simp add: alice_def author_def getattr_def)
  have 5: "handle_extra_field alice ''name''
       \<lparr>s_fields = Some [], s_extras = Some [], objects = []\<rparr>
     = Inr \<lparr>s_fields = Some [], s_extras = Some [(''name'', OVal (VStr ''Alice''))],
            objects = []\<rparr>"
    using extra_field_values [OF e, of alice "''name''" _ "''Alice''" _ "VStr ''Alice''"]
    by (simp add: alice_def author_def getattr_def)
  have 6: "handle_extra_field alice ''profile''
       \<lparr>s_fields = Some [], s_extras = Some [], objects = []\<rparr>
     = Inr \<lparr>s_fields = Some [], s_extras = Some [(''profile'', OVal (VStr ''Profile object''))],
            objects = []\<rparr>"
    using extra_field_values [OF e, of alice "''profile''" _ _ _ _ "profile 7 ''Bio''"]
    by (simp add: alice_def author_def profile_def getattr_def)
  have 7: "handle_extra_field alice ''nope''
       \<lparr>s_fields = Some [], s_extras = Some [], objects = []\<rparr>
     = Inr \<lparr>s_fields = Some [], s_extras = Some [], objects = []\<rparr>"
    using extra_field_values [OF e, of alice "''nope''"]
    by (simp add: alice_def author_def hasattr_def)
  have 8: "handle_extra_field
       (Obj author_meta (VInt 2) ''Author object'' [(''raw'', AValue (VBytes None))]) ''raw''
       \<lparr>s_fields = Some [], s_extras = Some [], objects = []\<rparr>
     = Inl UnicodeDecodeError"
    using extra_field_values [OF e,
        of "Obj author_meta (VInt 2) ''Author object'' [(''raw'', AValue (VBytes None))]"
           "''raw''" _ _ UnicodeDecodeError "VBytes None"]
    by (simp add: getattr_def)
  from 1 2 3 4 5 6 7 8 show ?thesis by (intro conjI)
qed

text \<open>
  The claim as the specification words it (the string form of the return value is
  stored) fails for a method that returns an integer: the integer is stored.
\<close>

theorem extra_field_string_form_counterexample:
  "getattr (author 1 ''Alice'' [book 10 ''X'' None []] None) ''books_written''
     = Inr (AMethod (VInt 1))
   \<and> handle_extra_field (author 1 ''Alice'' [book 10 ''X'' None []] None) ''books_written''
        \<lparr>s_fields = Some [], s_extras = Some [], objects = []\<rparr>
      = Inr \<lparr>s_fields = Some [], s_extras = Some [(''books_written'', OVal (VInt 1))],
             objects = []\<rparr>
   \<and> force_text (VInt 1) = Inr ''1'' \<and> OVal (VInt 1) \<noteq> OVal (VStr ''1'')"
  by (simp add: author_def getattr_def hasattr_def handle_extra_field_def
        smart_str_strings_only_def set_extra_def str_int_def str_nat.simps)

section \<open>Properties of the field loop\<close>

text \<open>
  C7. For a foreign-key field, whose \<^verbatim>\<open>attname\<close> is its name followed by \<^verbatim>\<open>_id\<close>, the
  name that \<^verbatim>\<open>serialize\<close> tests against \<^verbatim>\<open>excludes\<close> and \<^verbatim>\<open>fields\<close>, which is
  \<^verbatim>\<open>attname[:-3]\<close>, is the name of the field: the handler is called exactly when the field
  is serializable and its name passes the filter.
\<close>

theorem fk_filter_uses_logical_name:
  assumes "rel f \<noteq> None" and "attname f = name f @ ''_id''"
  shows "slice_to_minus3 (attname f) = name f
     \<and> local_field_step ser opts ob f s
         = (if field_serialize f \<and> passes_filter opts (name f)
            then handle_fk_field ser opts ob f s else Inr s)"
proof -
  have n: "slice_to_minus3 (attname f) = name f"
    using assms(2) by (simp add: slice_to_minus3_def)
  from assms(1) obtain ri where "rel f = Some ri" by auto
  then show ?thesis
    by (simp add: n local_field_step_def passes_filter_def)
qed

theorem fk_filter_uses_logical_name_witness:
  "rel author_field \<noteq> None \<and> attname author_field = name author_field @ ''_id''
   \<and> attname author_field = ''author_id''
   \<and> slice_to_minus3 (attname author_field) = ''author''
   \<and> passes_filter (Options [''author''] [] (RelList []) [] False) (name author_field)
   \<and> local_field_step serialize (Options [''author''] [] (RelList []) [] False)
        (book 10 ''X'' (Some (author 1 ''Alice'' [] None)) []) author_field
        \<lparr>s_fields = Some [], s_extras = Some [], objects = []\<rparr>
      = handle_fk_field serialize (Options [''author''] [] (RelList []) [] False)
        (book 10 ''X'' (Some (author 1 ''Alice'' [] None)) []) author_field
        \<lparr>s_fields = Some [], s_extras = Some [], objects = []\<rparr>
   \<and> local_field_step serialize (Options [''author_id''] [] (RelList []) [] False)
        (book 10 ''X'' (Some (author 1 ''Alice'' [] None)) []) author_field
        \<lparr>s_fields = Some [], s_extras = Some [], objects = []\<rparr>
      = Inr \<lparr>s_fields = Some [], s_extras = Some [], objects = []\<rparr>"
proof -
  have r: "rel author_field \<noteq> None" by (simp add: author_field_def)
  have a: "attname author_field = name author_field @ ''_id''"
    by (simp add: author_field_def)
  show ?thesis
    using r a
      fk_filter_uses_logical_name [OF r a, of serialize
        "Options [''author''] [] (RelList []) [] False"
        "book 10 ''X'' (Some (author 1 ''Alice'' [] None)) []"
        "\<lparr>s_fields = Some [], s_extras = Some [], objects = []\<rparr>"]
      fk_filter_uses_logical_name [OF r a, of serialize
        "Options [''author_id''] [] (RelList []) [] False"
        "book 10 ''X'' (Some (author 1 ''Alice'' [] None)) []"
        "\<lparr>s_fields = Some [], s_extras = Some [], objects = []\<rparr>"]
    by (simp add: author_field_def passes_filter_def)
qed

section \<open>The keys of a record\<close>

text \<open>
  Which keys a step may add to \<^verbatim>\<open>_fields\<close>. \<open>writes K s s'\<close>: from \<open>s\<close> to \<open>s'\<close> the list
  \<^verbatim>\<open>objects\<close> is unchanged, \<^verbatim>\<open>_fields\<close> is still a dictionary if it was one, it has kept
  its keys, and every key it has gained is in \<open>K\<close>.
\<close>

definition fkeys :: "serializer \<Rightarrow> string set" where
  "fkeys s = (case s_fields s of None \<Rightarrow> {} | Some d \<Rightarrow> fst ` set d)"

definition writes :: "string set \<Rightarrow> serializer \<Rightarrow> serializer \<Rightarrow> bool" where
  "writes K s s' \<longleftrightarrow>
     objects s' = objects s \<and> (s_fields s' = None \<longleftrightarrow> s_fields s = None)
     \<and> fkeys s \<subseteq> fkeys s' \<and> fkeys s' \<subseteq> fkeys s \<union> K"

text \<open>The keys the steps of the field loop may add, as the conditions of the code give them.\<close>

definition local_field_keys :: "options \<Rightarrow> field \<Rightarrow> string set" where
  "local_field_keys opts f =
     (if field_serialize f
         \<and> passes_filter opts (if rel f = None then attname f else slice_to_minus3 (attname f))
      then {name f} else {})"

definition m2m_keys :: "options \<Rightarrow> field \<Rightarrow> string set" where
  "m2m_keys opts f =
     (if field_serialize f \<and> passes_filter opts (attname f)
         \<and> (case rel f of None \<Rightarrow> False | Some ri \<Rightarrow> through_auto_created ri)
      then {name f} else {})"

definition related_fk_keys :: "options \<Rightarrow> obj \<Rightarrow> related_object \<Rightarrow> string set" where
  "related_fk_keys opts ob ro =
     (if accessor_name ro \<notin> set (excludes opts)
         \<and> (in_relations (accessor_name ro) (relations opts)
              \<or> getattr ob (accessor_name ro) = Inr (AValue VNone))
      then {accessor_name ro} else {})"

definition related_m2m_keys :: "options \<Rightarrow> related_object \<Rightarrow> string set" where
  "related_m2m_keys opts ro =
     (if accessor_name ro \<notin> set (excludes opts)
         \<and> in_relations (accessor_name ro) (relations opts)
      then {accessor_name ro} else {})"

definition written_keys :: "options \<Rightarrow> obj \<Rightarrow> string set" where
  "written_keys opts ob =
     (\<Union>f \<in> set (local_fields (obj_meta ob)). local_field_keys opts f)
     \<union> (\<Union>f \<in> set (many_to_many (obj_meta ob)). m2m_keys opts f)
     \<union> (\<Union>ro \<in> set (related_fk_objects (obj_meta ob)). related_fk_keys opts ob ro)
     \<union> (\<Union>ro \<in> set (related_m2m_objects (obj_meta ob)). related_m2m_keys opts ro)"

lemma is_none_iff: "is_none a = (a = AValue VNone)"
  by (cases a rule: is_none.cases) simp_all

lemma writes_refl: "writes K s s"
  by (simp add: writes_def)

lemma writes_mono: "writes K s s' \<Longrightarrow> K \<subseteq> K' \<Longrightarrow> writes K' s s'"
  by (auto simp: writes_def)

lemma writes_trans: "writes K s s' \<Longrightarrow> writes K' s' s'' \<Longrightarrow> writes (K \<union> K') s s''"
  by (auto simp: writes_def)

lemma set_field_writes:
  assumes "set_field k v s = Inr s'"
  shows "writes {k} s s'"
proof -
  from assms obtain d where "s_fields s = Some d"
    and "s' = s\<lparr>s_fields := Some (AList.update k v d)\<rparr>"
    by (auto simp: set_field_def split: option.splits)
  then show ?thesis
    by (auto simp: writes_def fkeys_def dom_update)
qed

lemma set_extra_writes: "set_extra k v s = Inr s' \<Longrightarrow> writes {} s s'"
  by (auto simp: set_extra_def writes_def fkeys_def split: option.splits)

lemma handle_field_writes: "handle_field ob f s = Inr s' \<Longrightarrow> writes {name f} s s'"
  by (auto simp: handle_field_def split: if_splits dest: set_field_writes)

lemma handle_fk_field_writes: "handle_fk_field ser opts ob f s = Inr s' \<Longrightarrow> writes {name f} s s'"
  by (auto simp: handle_fk_field_def split: if_splits dest: set_field_writes)

lemma handle_m2m_field_writes:
  "handle_m2m_field ser opts ob f s = Inr s' \<Longrightarrow>
     writes (if (case rel f of None \<Rightarrow> False | Some ri \<Rightarrow> through_auto_created ri)
             then {name f} else {}) s s'"
  by (auto simp: handle_m2m_field_def rel_of_def writes_refl
        split: if_splits option.splits dest: set_field_writes)

lemma handle_extra_field_writes: "handle_extra_field ob n s = Inr s' \<Longrightarrow> writes {} s s'"
  by (auto simp: handle_extra_field_def writes_refl split: if_splits dest: set_extra_writes)

lemma handle_related_m2m_field_writes:
  "handle_related_m2m_field ser opts ob n s = Inr s' \<Longrightarrow>
     writes (if in_relations n (relations opts) then {n} else {}) s s'"
  by (auto simp: handle_related_m2m_field_def writes_refl
        split: if_splits dest: set_field_writes)

lemma handle_related_fk_field_writes:
  "handle_related_fk_field ser opts ob n s = Inr s' \<Longrightarrow>
     writes (if in_relations n (relations opts) \<or> getattr ob n = Inr (AValue VNone)
             then {n} else {}) s s'"
  by (auto simp: handle_related_fk_field_def writes_refl is_none_iff
        split: if_splits dest: set_field_writes)

lemma local_field_step_writes:
  "local_field_step ser opts ob f s = Inr s' \<Longrightarrow> writes (local_field_keys opts f) s s'"
  by (auto simp: local_field_step_def local_field_keys_def passes_filter_def writes_refl
        split: if_splits dest: handle_field_writes handle_fk_field_writes)

lemma m2m_step_writes:
  "m2m_step ser opts ob f s = Inr s' \<Longrightarrow> writes (m2m_keys opts f) s s'"
proof -
  assume a: "m2m_step ser opts ob f s = Inr s'"
  show ?thesis
  proof (cases "field_serialize f \<and> passes_filter opts (attname f)")
    case True
    then have "handle_m2m_field ser opts ob f s = Inr s'"
      using a by (auto simp: m2m_step_def passes_filter_def split: if_splits)
    then show ?thesis
      using True by (auto simp: m2m_keys_def dest: handle_m2m_field_writes)
  next
    case False
    then have "s' = s"
      using a by (auto simp: m2m_step_def passes_filter_def split: if_splits)
    then show ?thesis by (simp add: writes_refl)
  qed
qed

lemma related_fk_step_writes:
  "related_fk_step ser opts ob ro s = Inr s' \<Longrightarrow> writes (related_fk_keys opts ob ro) s s'"
proof -
  assume a: "related_fk_step ser opts ob ro s = Inr s'"
  show ?thesis
  proof (cases "accessor_name ro \<in> set (excludes opts)")
    case True
    then show ?thesis using a by (simp add: related_fk_step_def writes_refl)
  next
    case False
    then have "handle_related_fk_field ser opts ob (accessor_name ro) s = Inr s'"
      using a by (simp add: related_fk_step_def)
    then show ?thesis
      using False by (auto simp: related_fk_keys_def dest: handle_related_fk_field_writes)
  qed
qed

lemma related_m2m_step_writes:
  "related_m2m_step ser opts ob ro s = Inr s' \<Longrightarrow> writes (related_m2m_keys opts ro) s s'"
proof -
  assume a: "related_m2m_step ser opts ob ro s = Inr s'"
  show ?thesis
  proof (cases "accessor_name ro \<in> set (excludes opts)")
    case True
    then show ?thesis using a by (simp add: related_m2m_step_def writes_refl)
  next
    case False
    then have "handle_related_m2m_field ser opts ob (accessor_name ro) s = Inr s'"
      using a by (simp add: related_m2m_step_def)
    then show ?thesis
      using False by (auto simp: related_m2m_keys_def dest: handle_related_m2m_field_writes)
  qed
qed

lemma for_each_writes:
  assumes "\<And>x s s'. x \<in> set xs \<Longrightarrow> f x s = Inr s' \<Longrightarrow> writes (W x) s s'"
    and "for_each f xs s = Inr s'"
  shows "writes (\<Union>x \<in> set xs. W x) s s'"
  using assms
proof (induction xs arbitrary: s)
  case Nil
  then show ?case by (simp add: writes_refl)
next
  case (Cons x xs)
  from Cons.prems(2) obtain s1 where 1: "f x s = Inr s1" and 2: "for_each f xs s1 = Inr s'"
    by (auto split: sum.splits)
  have "writes (W x) s s1" using Cons.prems(1) 1 by simp
  moreover have "writes (\<Union>x \<in> set xs. W x) s1 s'"
    using Cons.IH [OF _ 2] Cons.prems(1) by simp
  ultimately have "writes (W x \<union> (\<Union>x \<in> set xs. W x)) s s'" by (rule writes_trans)
  then show ?case by simp
qed

lemma set_field_adds: "set_field k v s = Inr s' \<Longrightarrow> k \<in> fkeys s'"
  by (auto simp: set_field_def fkeys_def dom_update split: option.splits)

lemma handle_related_fk_field_adds:
  "handle_related_fk_field ser opts ob n s = Inr s' \<Longrightarrow> in_relations n (relations opts)
     \<Longrightarrow> n \<in> fkeys s'"
  by (auto simp: handle_related_fk_field_def split: if_splits dest: set_field_adds)

lemma handle_related_m2m_field_adds:
  "handle_related_m2m_field ser opts ob n s = Inr s' \<Longrightarrow> in_relations n (relations opts)
     \<Longrightarrow> n \<in> fkeys s'"
  by (auto simp: handle_related_m2m_field_def dest: set_field_adds)

lemma for_each_keeps:
  assumes "\<And>y s s'. y \<in> set xs \<Longrightarrow> f y s = Inr s' \<Longrightarrow> fkeys s \<subseteq> fkeys s'"
    and "for_each f xs s = Inr s'"
  shows "fkeys s \<subseteq> fkeys s'"
  using assms
proof (induction xs arbitrary: s)
  case Nil
  then show ?case by simp
next
  case (Cons y ys)
  from Cons.prems(2) obtain s1 where 1: "f y s = Inr s1" and 2: "for_each f ys s1 = Inr s'"
    by (auto split: sum.splits)
  have "fkeys s \<subseteq> fkeys s1" using Cons.prems(1) [of y s s1] 1 by simp
  moreover have "fkeys s1 \<subseteq> fkeys s'"
  proof (rule Cons.IH [OF _ 2])
    fix z t t'
    assume "z \<in> set ys" and "f z t = Inr t'"
    then show "fkeys t \<subseteq> fkeys t'" using Cons.prems(1) [of z t t'] by simp
  qed
  ultimately show ?case by blast
qed

lemma for_each_adds:
  assumes "\<And>y s s'. y \<in> set xs \<Longrightarrow> f y s = Inr s' \<Longrightarrow> fkeys s \<subseteq> fkeys s'"
    and "\<And>s s'. f x s = Inr s' \<Longrightarrow> k \<in> fkeys s'"
    and "x \<in> set xs" and "for_each f xs s = Inr s'"
  shows "k \<in> fkeys s'"
  using assms(1,3,4)
proof (induction xs arbitrary: s)
  case Nil
  then show ?case by simp
next
  case (Cons y ys)
  from Cons.prems(3) obtain s1 where 1: "f y s = Inr s1" and 2: "for_each f ys s1 = Inr s'"
    by (auto split: sum.splits)
  have m: "fkeys t \<subseteq> fkeys t'" if "z \<in> set ys" and "f z t = Inr t'" for z t t'
    using Cons.prems(1) [of z t t'] that by simp
  show ?case
  proof (cases "x \<in> set ys")
    case True
    show ?thesis by (rule Cons.IH [OF m True 2])
  next
    case False
    then have "y = x" using Cons.prems(2) by simp
    then have "k \<in> fkeys s1" using 1 assms(2) by blast
    moreover have "fkeys s1 \<subseteq> fkeys s'"
      by (rule for_each_keeps [OF m 2])
    ultimately show ?thesis by blast
  qed
qed

text \<open>
  The accessor names of the reverse relations that are not excluded and are in
  \<^verbatim>\<open>relations\<close>.
\<close>

definition expanded_keys :: "options \<Rightarrow> obj \<Rightarrow> string set" where
  "expanded_keys opts ob =
     {accessor_name ro | ro.
        ro \<in> set (related_fk_objects (obj_meta ob)) \<union> set (related_m2m_objects (obj_meta ob))
        \<and> accessor_name ro \<notin> set (excludes opts)
        \<and> in_relations (accessor_name ro) (relations opts)}"

lemma for_each_ran:
  assumes "for_each f xs s = Inr s'" and "x \<in> set xs"
  shows "\<exists>t t'. f x t = Inr t'"
  using assms
proof (induction xs arbitrary: s)
  case Nil
  then show ?case by simp
next
  case (Cons y ys)
  from Cons.prems(1) obtain s1 where 1: "f y s = Inr s1" and 2: "for_each f ys s1 = Inr s'"
    by (auto split: sum.splits)
  show ?case
  proof (cases "x = y")
    case True
    then show ?thesis using 1 by blast
  next
    case False
    then have "x \<in> set ys" using Cons.prems(2) by simp
    then show ?thesis by (rule Cons.IH [OF 2])
  qed
qed

lemma handle_related_fk_field_reads:
  "handle_related_fk_field ser opts ob n s = Inr s' \<Longrightarrow> \<exists>a. getattr ob n = Inr a"
  by (auto simp: handle_related_fk_field_def)

text \<open>
  What one pass of the loop over the queryset gives for an object: a record with the
  label of the model, whose \<^verbatim>\<open>fields\<close> dictionary has every key of \<open>expanded_keys\<close> and
  no key outside \<open>written_keys\<close>; and the pass has read the accessor of every reverse
  foreign-key relation that is not excluded.
\<close>

definition record_for :: "options \<Rightarrow> obj \<Rightarrow> out \<Rightarrow> bool" where
  "record_for opts ob r \<longleftrightarrow>
     (\<exists>p d es. r = record_of (label (obj_meta ob)) p (Some d) es
        \<and> expanded_keys opts ob \<subseteq> fst ` set d
        \<and> fst ` set d \<subseteq> written_keys opts ob)
     \<and> (\<forall>ro \<in> set (related_fk_objects (obj_meta ob)).
           accessor_name ro \<notin> set (excludes opts)
           \<longrightarrow> (\<exists>a. getattr ob (accessor_name ro) = Inr a))"

lemma serialize_object_record:
  assumes "serialize_object ser opts ob s = Inr s'"
  shows "\<exists>r. objects s' = objects s @ [r] \<and> record_for opts ob r"
proof -
  from assms obtain s1 s2 s3 s4 s5 where
    1: "for_each (local_field_step ser opts ob) (local_fields (obj_meta ob)) (start_object ob s)
          = Inr s1"
    and 2: "for_each (m2m_step ser opts ob) (many_to_many (obj_meta ob)) s1 = Inr s2"
    and 3: "for_each (related_fk_step ser opts ob) (related_fk_objects (obj_meta ob)) s2 = Inr s3"
    and 4: "for_each (related_m2m_step ser opts ob) (related_m2m_objects (obj_meta ob)) s3
          = Inr s4"
    and 5: "for_each (handle_extra_field ob) (extras opts) s4 = Inr s5"
    and 6: "end_object ob s5 = Inr s'"
    by (auto simp: serialize_object_def)
  have w1: "writes (\<Union>f \<in> set (local_fields (obj_meta ob)). local_field_keys opts f)
              (start_object ob s) s1"
    using for_each_writes [OF _ 1] local_field_step_writes by blast
  have w2: "writes (\<Union>f \<in> set (many_to_many (obj_meta ob)). m2m_keys opts f) s1 s2"
    using for_each_writes [OF _ 2] m2m_step_writes by blast
  have w3: "writes (\<Union>ro \<in> set (related_fk_objects (obj_meta ob)). related_fk_keys opts ob ro)
              s2 s3"
    using for_each_writes [OF _ 3] related_fk_step_writes by blast
  have w4: "writes (\<Union>ro \<in> set (related_m2m_objects (obj_meta ob)). related_m2m_keys opts ro)
              s3 s4"
    using for_each_writes [OF _ 4] related_m2m_step_writes by blast
  have w5: "writes (\<Union>n \<in> set (extras opts). {}) s4 s5"
    using for_each_writes [where W = "\<lambda>n. {}", OF _ 5] handle_extra_field_writes by blast
  have "writes (written_keys opts ob) (start_object ob s) s5"
    using writes_trans [OF writes_trans [OF writes_trans [OF writes_trans [OF w1 w2] w3] w4] w5]
    by (simp add: written_keys_def)
  then have o: "objects s5 = objects s" and n: "s_fields s5 \<noteq> None"
    and k: "fkeys s5 \<subseteq> written_keys opts ob"
    by (auto simp: writes_def start_object_def fkeys_def)
  have a3: "accessor_name ro \<in> fkeys s3"
    if "ro \<in> set (related_fk_objects (obj_meta ob))"
      and "accessor_name ro \<notin> set (excludes opts)"
      and "in_relations (accessor_name ro) (relations opts)" for ro
  proof (rule for_each_adds [OF _ _ that(1) 3])
    fix y t t'
    assume "related_fk_step ser opts ob y t = Inr t'"
    then show "fkeys t \<subseteq> fkeys t'"
      using related_fk_step_writes by (auto simp: writes_def)
  next
    fix t t'
    assume "related_fk_step ser opts ob ro t = Inr t'"
    then have "handle_related_fk_field ser opts ob (accessor_name ro) t = Inr t'"
      using that(2) by (simp add: related_fk_step_def)
    then show "accessor_name ro \<in> fkeys t'"
      using that(3) by (rule handle_related_fk_field_adds)
  qed
  have a4: "accessor_name ro \<in> fkeys s4"
    if "ro \<in> set (related_m2m_objects (obj_meta ob))"
      and "accessor_name ro \<notin> set (excludes opts)"
      and "in_relations (accessor_name ro) (relations opts)" for ro
  proof (rule for_each_adds [OF _ _ that(1) 4])
    fix y t t'
    assume "related_m2m_step ser opts ob y t = Inr t'"
    then show "fkeys t \<subseteq> fkeys t'"
      using related_m2m_step_writes by (auto simp: writes_def)
  next
    fix t t'
    assume "related_m2m_step ser opts ob ro t = Inr t'"
    then have "handle_related_m2m_field ser opts ob (accessor_name ro) t = Inr t'"
      using that(2) by (simp add: related_m2m_step_def)
    then show "accessor_name ro \<in> fkeys t'"
      using that(3) by (rule handle_related_m2m_field_adds)
  qed
  have k34: "fkeys s3 \<subseteq> fkeys s4" and k45: "fkeys s4 \<subseteq> fkeys s5"
    using w4 w5 by (auto simp: writes_def)
  have x: "expanded_keys opts ob \<subseteq> fkeys s5"
    using a3 a4 k34 k45 by (auto simp: expanded_keys_def)
  have g: "\<exists>a. getattr ob (accessor_name ro) = Inr a"
    if "ro \<in> set (related_fk_objects (obj_meta ob))"
      and "accessor_name ro \<notin> set (excludes opts)" for ro
  proof -
    from for_each_ran [OF 3 that(1)] obtain t t' where
      "related_fk_step ser opts ob ro t = Inr t'" by blast
    then have "handle_related_fk_field ser opts ob (accessor_name ro) t = Inr t'"
      using that(2) by (simp add: related_fk_step_def)
    then show ?thesis by (rule handle_related_fk_field_reads)
  qed
  from n obtain d where d: "s_fields s5 = Some d" by auto
  with k x have "fst ` set d \<subseteq> written_keys opts ob" and "expanded_keys opts ob \<subseteq> fst ` set d"
    by (simp_all add: fkeys_def)
  moreover from 6 obtain p where
    "objects s' = objects s5 @ [record_of (label (obj_meta ob)) p (s_fields s5) (s_extras s5)]"
    by (auto simp: end_object_def)
  ultimately show ?thesis using o d g by (auto simp: record_for_def)
qed

lemma for_each_serialize_object:
  assumes "for_each (serialize_object ser opts) queryset s = Inr s'"
  shows "\<exists>recs. objects s' = objects s @ recs \<and> list_all2 (record_for opts) queryset recs"
  using assms
proof (induction queryset arbitrary: s)
  case Nil
  then show ?case by simp
next
  case (Cons ob obs)
  from Cons.prems obtain s1 where 1: "serialize_object ser opts ob s = Inr s1"
    and 2: "for_each (serialize_object ser opts) obs s1 = Inr s'"
    by (auto split: sum.splits)
  from serialize_object_record [OF 1] obtain r where
    r: "objects s1 = objects s @ [r]" and k: "record_for opts ob r"
    by blast
  from Cons.IH [OF 2] obtain recs where
    o: "objects s' = objects s1 @ recs" and l: "list_all2 (record_for opts) obs recs"
    by blast
  have "objects s' = objects s @ (r # recs)"
    using r o by simp
  moreover have "list_all2 (record_for opts) (ob # obs) (r # recs)"
    using k l by simp
  ultimately show ?case by blast
qed

lemma serialize_records:
  assumes "serialize opts queryset = Inr recs"
  shows "list_all2 (record_for opts) queryset recs"
proof -
  from assms obtain s' where
    1: "for_each (serialize_object serialize opts) queryset start_serialization = Inr s'"
    and 2: "recs = objects s'"
    by (auto simp: serialize.simps [of opts queryset] serialize_with_def)
  from for_each_serialize_object [OF 1] 2 show ?thesis
    by (auto simp: start_serialization_def)
qed

lemma serialize_length: "serialize opts queryset = Inr recs \<Longrightarrow> length recs = length queryset"
  by (drule serialize_records) (simp add: list_all2_lengthD)

section \<open>Properties of the records\<close>

lemma serialize_each:
  assumes "serialize opts queryset = Inr recs"
    and "\<And>ob r. ob \<in> set queryset \<Longrightarrow> record_for opts ob r \<Longrightarrow> Q ob r"
  shows "list_all2 Q queryset recs"
proof -
  have l: "list_all2 (record_for opts) queryset recs"
    using assms(1) by (rule serialize_records)
  show ?thesis
    unfolding list_all2_conv_all_nth
  proof (intro conjI allI impI)
    show "length queryset = length recs"
      using l by (rule list_all2_lengthD)
  next
    fix i
    assume i: "i < length queryset"
    then have "queryset ! i \<in> set queryset" by simp
    moreover have "record_for opts (queryset ! i) (recs ! i)"
      using l i by (simp add: list_all2_conv_all_nth)
    ultimately show "Q (queryset ! i) (recs ! i)" by (rule assms(2))
  qed
qed

text \<open>
  What Django guarantees of the attribute names of a model: the \<^verbatim>\<open>attname\<close> of a foreign
  key is its name followed by \<^verbatim>\<open>_id\<close>, and the \<^verbatim>\<open>attname\<close> of every other field is its
  name.
\<close>

definition django_attnames :: "meta \<Rightarrow> bool" where
  "django_attnames m \<longleftrightarrow>
     (\<forall>f \<in> set (local_fields m).
        attname f = (if rel f = None then name f else name f @ ''_id''))
     \<and> (\<forall>f \<in> set (many_to_many m). attname f = name f)"

text \<open>
  What Django guarantees of the reverse accessors of an instance: the name of an accessor
  is not the name of a field of the model (the checks of the model reject the clash), and
  reading an accessor gives a manager or a related instance, or raises; it does not give
  \<^verbatim>\<open>None\<close>.
\<close>

definition django_reverse_accessors :: "obj \<Rightarrow> bool" where
  "django_reverse_accessors ob \<longleftrightarrow>
     (\<forall>ro \<in> set (related_fk_objects (obj_meta ob)) \<union> set (related_m2m_objects (obj_meta ob)).
        accessor_name ro \<notin> name ` (set (local_fields (obj_meta ob))
                                     \<union> set (many_to_many (obj_meta ob)))
        \<and> getattr ob (accessor_name ro) \<noteq> Inr (AValue VNone))"

lemma not_written:
  assumes "\<not> in_relations k (relations opts)"
    and "k \<notin> name ` (set (local_fields (obj_meta ob)) \<union> set (many_to_many (obj_meta ob)))"
    and "k \<in> accessor_name ` set (related_fk_objects (obj_meta ob))
           \<longrightarrow> getattr ob k \<noteq> Inr (AValue VNone)"
  shows "k \<notin> written_keys opts ob"
  using assms
  by (auto simp: written_keys_def local_field_keys_def m2m_keys_def related_fk_keys_def
        related_m2m_keys_def split: if_splits)

lemma excluded_not_written:
  assumes "k \<in> set (excludes opts)" and "django_attnames (obj_meta ob)"
  shows "k \<notin> written_keys opts ob"
proof -
  have 1: "k \<notin> local_field_keys opts f" if "f \<in> set (local_fields (obj_meta ob))" for f
  proof -
    have "attname f = (if rel f = None then name f else name f @ ''_id'')"
      using assms(2) that by (simp add: django_attnames_def)
    then have "(if rel f = None then attname f else slice_to_minus3 (attname f)) = name f"
      by (simp add: slice_to_minus3_def)
    then show ?thesis
      using assms(1) by (auto simp: local_field_keys_def passes_filter_def)
  qed
  have 2: "k \<notin> m2m_keys opts f" if "f \<in> set (many_to_many (obj_meta ob))" for f
  proof -
    have "attname f = name f"
      using assms(2) that by (simp add: django_attnames_def)
    then show ?thesis
      using assms(1) by (auto simp: m2m_keys_def passes_filter_def)
  qed
  have 3: "k \<notin> related_fk_keys opts ob ro" for ro
    using assms(1) by (auto simp: related_fk_keys_def)
  have 4: "k \<notin> related_m2m_keys opts ro" for ro
    using assms(1) by (auto simp: related_m2m_keys_def)
  show ?thesis
    using 1 2 3 4 by (auto simp: written_keys_def)
qed


text \<open>
  C1. In every record that \<^verbatim>\<open>serialize\<close> returns for Django instances, the \<^verbatim>\<open>fields\<close>
  dictionary has no key for the accessor name of a reverse foreign-key or reverse
  many-to-many relation that is not in \<^verbatim>\<open>relations\<close>.
\<close>

theorem reverse_relation_not_expanded_absent:
  assumes "serialize opts queryset = Inr recs"
    and "\<forall>ob \<in> set queryset. django_reverse_accessors ob"
  shows "list_all2 (\<lambda>ob r. \<exists>p d es. r = record_of (label (obj_meta ob)) p (Some d) es \<and>
           (\<forall>ro \<in> set (related_fk_objects (obj_meta ob))
                     \<union> set (related_m2m_objects (obj_meta ob)).
              \<not> in_relations (accessor_name ro) (relations opts)
              \<longrightarrow> accessor_name ro \<notin> fst ` set d))
         queryset recs"
proof (rule serialize_each [OF assms(1)])
  fix ob r
  assume ob: "ob \<in> set queryset" and "record_for opts ob r"
  then obtain p d es where r: "r = record_of (label (obj_meta ob)) p (Some d) es"
    and k: "fst ` set d \<subseteq> written_keys opts ob"
    by (auto simp: record_for_def)
  have a: "django_reverse_accessors ob" using assms(2) ob by blast
  have "accessor_name ro \<notin> fst ` set d"
    if "ro \<in> set (related_fk_objects (obj_meta ob)) \<union> set (related_m2m_objects (obj_meta ob))"
      and "\<not> in_relations (accessor_name ro) (relations opts)" for ro
  proof -
    have "accessor_name ro \<notin> name ` (set (local_fields (obj_meta ob))
                                     \<union> set (many_to_many (obj_meta ob)))"
      and "getattr ob (accessor_name ro) \<noteq> Inr (AValue VNone)"
      using a that(1) by (auto simp: django_reverse_accessors_def)
    then have "accessor_name ro \<notin> written_keys opts ob"
      using that(2) by (intro not_written) auto
    then show ?thesis using k by blast
  qed
  with r show "\<exists>p d es. r = record_of (label (obj_meta ob)) p (Some d) es \<and>
           (\<forall>ro \<in> set (related_fk_objects (obj_meta ob))
                     \<union> set (related_m2m_objects (obj_meta ob)).
              \<not> in_relations (accessor_name ro) (relations opts)
              \<longrightarrow> accessor_name ro \<notin> fst ` set d)"
    by blast
qed

definition alice_books :: obj where
  "alice_books = author 1 ''Alice'' [book 10 ''X'' None []] (Some (profile 7 ''Bio''))"

definition tag_a :: obj where
  "tag_a = tag 3 ''a'' [book 10 ''X'' None []]"

lemma related_objects_of_examples:
  "related_fk_objects author_meta = [reverse_fk ''book_set'', reverse_one_to_one ''profile'']"
  "related_m2m_objects author_meta = []"
  "related_fk_objects tag_meta = []"
  "related_m2m_objects tag_meta = [reverse_m2m ''book_set'']"
  "related_fk_objects book_meta = []"
  "related_m2m_objects book_meta = []"
  by (simp_all add: related_fk_objects_def related_m2m_objects_def get_fields_def
        author_meta_def tag_meta_def book_meta_def reverse_fk_def reverse_one_to_one_def
        reverse_m2m_def)

lemma django_reverse_accessors_examples:
  "django_reverse_accessors alice_books" "django_reverse_accessors tag_a"
  by (simp_all add: django_reverse_accessors_def alice_books_def tag_a_def author_def tag_def
        related_objects_of_examples getattr_def)
     (simp_all add: author_meta_def tag_meta_def id_field_def name_field_def reverse_fk_def
        reverse_one_to_one_def reverse_m2m_def)

theorem reverse_relation_not_expanded_absent_witness:
  "serialize empty_options [alice_books, tag_a]
     = Inr [record_of ''app.author'' (VInt 1) (Some [(''name'', OVal (VStr ''Alice''))]) (Some []),
            record_of ''app.tag'' (VInt 3) (Some [(''name'', OVal (VStr ''a''))]) (Some [])]
   \<and> django_reverse_accessors alice_books \<and> django_reverse_accessors tag_a
   \<and> reverse_fk ''book_set'' \<in> set (related_fk_objects (obj_meta alice_books))
   \<and> reverse_one_to_one ''profile'' \<in> set (related_fk_objects (obj_meta alice_books))
   \<and> reverse_m2m ''book_set'' \<in> set (related_m2m_objects (obj_meta tag_a))
   \<and> list_all2 (\<lambda>ob r. \<exists>p d es. r = record_of (label (obj_meta ob)) p (Some d) es \<and>
           (\<forall>ro \<in> set (related_fk_objects (obj_meta ob))
                     \<union> set (related_m2m_objects (obj_meta ob)).
              accessor_name ro \<notin> fst ` set d))
       [alice_books, tag_a]
       [record_of ''app.author'' (VInt 1) (Some [(''name'', OVal (VStr ''Alice''))]) (Some []),
        record_of ''app.tag'' (VInt 3) (Some [(''name'', OVal (VStr ''a''))]) (Some [])]"
proof -
  have e: "serialize empty_options [alice_books, tag_a]
     = Inr [record_of ''app.author'' (VInt 1) (Some [(''name'', OVal (VStr ''Alice''))]) (Some []),
            record_of ''app.tag'' (VInt 3) (Some [(''name'', OVal (VStr ''a''))]) (Some [])]"
    by code_simp
  have q: "\<forall>ob \<in> set [alice_books, tag_a]. django_reverse_accessors ob"
    by (simp add: django_reverse_accessors_examples)
  have n: "\<not> in_relations k (relations empty_options)" for k
    by (simp add: empty_options_def)
  have m: "reverse_fk ''book_set'' \<in> set (related_fk_objects (obj_meta alice_books))"
      "reverse_one_to_one ''profile'' \<in> set (related_fk_objects (obj_meta alice_books))"
      "reverse_m2m ''book_set'' \<in> set (related_m2m_objects (obj_meta tag_a))"
    by (simp_all add: alice_books_def tag_a_def author_def tag_def related_objects_of_examples)
  have "list_all2 (\<lambda>ob r. \<exists>p d es. r = record_of (label (obj_meta ob)) p (Some d) es \<and>
           (\<forall>ro \<in> set (related_fk_objects (obj_meta ob))
                     \<union> set (related_m2m_objects (obj_meta ob)).
              accessor_name ro \<notin> fst ` set d))
       [alice_books, tag_a]
       [record_of ''app.author'' (VInt 1) (Some [(''name'', OVal (VStr ''Alice''))]) (Some []),
        record_of ''app.tag'' (VInt 3) (Some [(''name'', OVal (VStr ''a''))]) (Some [])]"
    using reverse_relation_not_expanded_absent [OF e q] by (simp add: n)
  with e django_reverse_accessors_examples m show ?thesis by (intro conjI)
qed

text \<open>
  C3. A name that is in \<^verbatim>\<open>fields\<close> and in \<^verbatim>\<open>excludes\<close> is not a key of the \<^verbatim>\<open>fields\<close>
  dictionary of any record that \<^verbatim>\<open>serialize\<close> returns, whatever kind of field or relation
  it names, for models whose attribute names are the ones Django gives.
\<close>

theorem excludes_dominance:
  assumes "serialize opts queryset = Inr recs"
    and "N \<in> set (fields opts)" and "N \<in> set (excludes opts)"
    and "\<forall>ob \<in> set queryset. django_attnames (obj_meta ob)"
  shows "list_all2 (\<lambda>ob r. \<exists>p d es. r = record_of (label (obj_meta ob)) p (Some d) es
                      \<and> N \<notin> fst ` set d) queryset recs"
proof (rule serialize_each [OF assms(1)])
  fix ob r
  assume ob: "ob \<in> set queryset" and "record_for opts ob r"
  then obtain p d es where r: "r = record_of (label (obj_meta ob)) p (Some d) es"
    and k: "fst ` set d \<subseteq> written_keys opts ob"
    by (auto simp: record_for_def)
  have "N \<notin> written_keys opts ob"
    using assms(3,4) ob excluded_not_written by blast
  with r k show "\<exists>p d es. r = record_of (label (obj_meta ob)) p (Some d) es \<and> N \<notin> fst ` set d"
    by blast
qed

lemma django_attnames_examples:
  "django_attnames book_meta" "django_attnames author_meta" "django_attnames tag_meta"
  by (simp_all add: django_attnames_def book_meta_def author_meta_def tag_meta_def id_field_def
        title_field_def name_field_def author_field_def tags_field_def editors_field_def)

theorem excludes_dominance_witness:
  "serialize (Options [''title'', ''author'', ''tags''] [''author'', ''tags'']
               (RelList [''author'']) [] False)
       [book 10 ''X'' (Some (author 1 ''Alice'' [] None)) [tag 3 ''a'' []]]
     = Inr [record_of ''app.book'' (VInt 10) (Some [(''title'', OVal (VStr ''X''))]) (Some [])]
   \<and> ''author'' \<in> set (fields (Options [''title'', ''author'', ''tags''] [''author'', ''tags'']
                                  (RelList [''author'']) [] False))
   \<and> ''author'' \<in> set (excludes (Options [''title'', ''author'', ''tags''] [''author'', ''tags'']
                                  (RelList [''author'']) [] False))
   \<and> django_attnames book_meta
   \<and> list_all2 (\<lambda>ob r. \<exists>p d es. r = record_of (label (obj_meta ob)) p (Some d) es
                      \<and> ''author'' \<notin> fst ` set d)
       [book 10 ''X'' (Some (author 1 ''Alice'' [] None)) [tag 3 ''a'' []]]
       [record_of ''app.book'' (VInt 10) (Some [(''title'', OVal (VStr ''X''))]) (Some [])]"
proof -
  have e: "serialize (Options [''title'', ''author'', ''tags''] [''author'', ''tags'']
               (RelList [''author'']) [] False)
       [book 10 ''X'' (Some (author 1 ''Alice'' [] None)) [tag 3 ''a'' []]]
     = Inr [record_of ''app.book'' (VInt 10) (Some [(''title'', OVal (VStr ''X''))]) (Some [])]"
    by code_simp
  have f: "''author'' \<in> set (fields (Options [''title'', ''author'', ''tags'']
                                  [''author'', ''tags''] (RelList [''author'']) [] False))"
    by simp
  have x: "''author'' \<in> set (excludes (Options [''title'', ''author'', ''tags'']
                                  [''author'', ''tags''] (RelList [''author'']) [] False))"
    by simp
  have d: "django_attnames book_meta"
    by (rule django_attnames_examples)
  have q: "\<forall>ob \<in> set [book 10 ''X'' (Some (author 1 ''Alice'' [] None)) [tag 3 ''a'' []]].
             django_attnames (obj_meta ob)"
    using d by (simp add: book_def)
  show ?thesis
    using e f x d excludes_dominance [OF e f x q] by (intro conjI)
qed




text \<open>
  C2. A forward foreign key whose name is in \<^verbatim>\<open>relations\<close> and whose related object is
  present: \<^verbatim>\<open>handle_fk_field\<close> stores, under the field name, the one record that a call
  of \<^verbatim>\<open>serialize\<close> on the list of the related object alone gives, with the nested options
  of that name (the dictionary that \<^verbatim>\<open>relations\<close> holds for the name when \<^verbatim>\<open>relations\<close> is
  a dictionary and the value is one, the empty options otherwise). When the nested call
  raises, so does the handler.
\<close>

theorem fk_expanded_is_nested_record:
  assumes "getattr ob (name f) = Inr (ARelated r)"
    and "in_relations (name f) (relations opts)"
    and "s_fields s = Some d"
  shows "(\<forall>recs. serialize (nested_options (relations opts) (name f)) [r] = Inr recs \<longrightarrow>
            (\<exists>v. recs = [v]
               \<and> handle_fk_field serialize opts ob f s
                   = Inr (s\<lparr>s_fields := Some (AList.update (name f) v d)\<rparr>)))
         \<and> (\<forall>e. serialize (nested_options (relations opts) (name f)) [r] = Inl e \<longrightarrow>
               handle_fk_field serialize opts ob f s = Inl e)
         \<and> nested_options (relations opts) (name f)
             = (case relations opts of
                  RelList ns \<Rightarrow> empty_options
                | RelDict kvs \<Rightarrow> (case map_of kvs (name f) of
                                     Some (Some nested) \<Rightarrow> nested
                                   | _ \<Rightarrow> empty_options))"
proof (intro conjI allI impI)
  fix recs
  assume n: "serialize (nested_options (relations opts) (name f)) [r] = Inr recs"
  then have "length recs = 1" by (simp add: serialize_length)
  then obtain v where v: "recs = [v]" by (cases recs) auto
  have "handle_fk_field serialize opts ob f s
          = Inr (s\<lparr>s_fields := Some (AList.update (name f) v d)\<rparr>)"
    using assms n v by (simp add: handle_fk_field_def set_field_Some)
  with v show "\<exists>v. recs = [v]
               \<and> handle_fk_field serialize opts ob f s
                   = Inr (s\<lparr>s_fields := Some (AList.update (name f) v d)\<rparr>)"
    by blast
next
  fix e
  assume "serialize (nested_options (relations opts) (name f)) [r] = Inl e"
  then show "handle_fk_field serialize opts ob f s = Inl e"
    using assms by (simp add: handle_fk_field_def)
next
  show "nested_options (relations opts) (name f)
             = (case relations opts of
                  RelList ns \<Rightarrow> empty_options
                | RelDict kvs \<Rightarrow> (case map_of kvs (name f) of
                                     Some (Some nested) \<Rightarrow> nested
                                   | _ \<Rightarrow> empty_options))"
    by (cases "relations opts") simp_all
qed

definition author_options :: options where
  "author_options = Options [''name''] [] (RelList []) [''initial''] False"

definition expand_author :: options where
  "expand_author = Options [] [] (RelDict [(''author'', Some author_options)]) [] False"

theorem fk_expanded_is_nested_record_witness:
  "getattr book_x (name author_field) = Inr (ARelated alice)
   \<and> in_relations (name author_field) (relations expand_author)
   \<and> nested_options (relations expand_author) (name author_field) = author_options
   \<and> serialize author_options [alice]
       = Inr [ODict [(''model'', OVal (VStr ''app.author'')), (''pk'', OVal (VInt 1)),
                     (''fields'', ODict [(''name'', OVal (VStr ''Alice''))]),
                     (''extras'', ODict [(''initial'', OVal (VStr ''A''))])]]
   \<and> handle_fk_field serialize expand_author book_x author_field
        \<lparr>s_fields = Some [(''title'', OVal (VStr ''X''))], s_extras = Some [], objects = []\<rparr>
       = Inr \<lparr>s_fields = Some [(''title'', OVal (VStr ''X'')),
                 (''author'', ODict [(''model'', OVal (VStr ''app.author'')), (''pk'', OVal (VInt 1)),
                     (''fields'', ODict [(''name'', OVal (VStr ''Alice''))]),
                     (''extras'', ODict [(''initial'', OVal (VStr ''A''))])])],
              s_extras = Some [], objects = []\<rparr>"
proof -
  have g: "getattr book_x (name author_field) = Inr (ARelated alice)"
    by (simp add: book_x_def book_def author_field_def getattr_def)
  have i: "in_relations (name author_field) (relations expand_author)"
    by (simp add: expand_author_def author_field_def)
  have n: "nested_options (relations expand_author) (name author_field) = author_options"
    by (simp add: expand_author_def author_field_def)
  have e: "serialize author_options [alice]
       = Inr [ODict [(''model'', OVal (VStr ''app.author'')), (''pk'', OVal (VInt 1)),
                     (''fields'', ODict [(''name'', OVal (VStr ''Alice''))]),
                     (''extras'', ODict [(''initial'', OVal (VStr ''A''))])]]"
    by code_simp
  have s: "s_fields \<lparr>s_fields = Some [(''title'', OVal (VStr ''X''))], s_extras = Some [],
                      objects = []\<rparr> = Some [(''title'', OVal (VStr ''X''))]"
    by simp
  note T = fk_expanded_is_nested_record [OF g i s]
  from T have "\<forall>recs. serialize author_options [alice] = Inr recs \<longrightarrow>
            (\<exists>v. recs = [v]
               \<and> handle_fk_field serialize expand_author book_x author_field
                    \<lparr>s_fields = Some [(''title'', OVal (VStr ''X''))], s_extras = Some [],
                      objects = []\<rparr>
                   = Inr (\<lparr>s_fields = Some [(''title'', OVal (VStr ''X''))], s_extras = Some [],
                      objects = []\<rparr>\<lparr>s_fields :=
                        Some (AList.update (name author_field) v [(''title'', OVal (VStr ''X''))])\<rparr>))"
    unfolding n by (rule conjunct1)
  with e have h: "handle_fk_field serialize expand_author book_x author_field
        \<lparr>s_fields = Some [(''title'', OVal (VStr ''X''))], s_extras = Some [], objects = []\<rparr>
       = Inr \<lparr>s_fields = Some [(''title'', OVal (VStr ''X'')),
                 (''author'', ODict [(''model'', OVal (VStr ''app.author'')), (''pk'', OVal (VInt 1)),
                     (''fields'', ODict [(''name'', OVal (VStr ''Alice''))]),
                     (''extras'', ODict [(''initial'', OVal (VStr ''A''))])])],
              s_extras = Some [], objects = []\<rparr>"
    by (auto simp: author_field_def)
  from g i n e h show ?thesis by (intro conjI)
qed

end
